theory Spec2Isabelle
  imports Complex_Main
begin

section \<open>JavaScript numbers\<close>

text \<open>
  A JavaScript number is an IEEE 754 double. A finite double is kept as \<open>Fin m e\<close>, the
  value \<open>m * 2^e\<close>, in the format's own normal form: zero is \<open>Fin 0 0\<close>, a normal number
  has \<open>2^52 \<le> \<bar>m\<bar> < 2^53\<close> and \<open>- 1074 \<le> e \<le> 971\<close>, a subnormal one has
  \<open>\<bar>m\<bar> < 2^52\<close> and \<open>e = - 1074\<close>. The two zeros are not told apart: the program
  never divides by a number nor prints the sign of a zero.
\<close>

datatype jsnum = NaN | PosInf | NegInf | Fin int int

function bitlen :: "int \<Rightarrow> int" where
  "bitlen n = (if n \<le> 0 then 0 else 1 + bitlen (n div 2))"
  by pat_completeness auto
termination
  by (relation "measure nat") auto

declare bitlen.simps [simp del]

definition sq :: "int \<Rightarrow> int" where
  "sq h = h * h"

text \<open>\<open>ipow b n\<close> is \<open>b^n\<close> for \<open>n \<ge> 0\<close> and \<open>1\<close> for a negative \<open>n\<close>, by squaring.\<close>

function ipow :: "int \<Rightarrow> int \<Rightarrow> int" where
  "ipow b n = (if n \<le> 0 then 1 else if even n then sq (ipow b (n div 2)) else b * ipow b (n - 1))"
  by pat_completeness auto
termination
  by (relation "measure (\<lambda>(b, n). nat n)") auto

declare ipow.simps [simp del]

text \<open>\<open>ilog2 a q\<close> is the floor of the binary logarithm of \<open>a / q\<close>, for positive \<open>a\<close> and \<open>q\<close>.\<close>

definition ilog2_adjust :: "int \<Rightarrow> int \<Rightarrow> int \<Rightarrow> int" where
  "ilog2_adjust a q d = (if q * ipow 2 d \<le> a * ipow 2 (- d) then d else d - 1)"

definition ilog2 :: "int \<Rightarrow> int \<Rightarrow> int" where
  "ilog2 a q = ilog2_adjust a q (bitlen a - bitlen q)"

text \<open>Division rounded to the nearest integer, a tie going to the even one.\<close>

definition ties_even :: "int \<Rightarrow> int \<Rightarrow> int \<Rightarrow> int" where
  "ties_even f r2 d = (if r2 < d then f else if d < r2 then f + 1
        else if even f then f else f + 1)"

definition round_div :: "int \<Rightarrow> int \<Rightarrow> int" where
  "round_div n d = ties_even (n div d) (2 * (n mod d)) d"

definition fl_pack :: "bool \<Rightarrow> int \<Rightarrow> int \<Rightarrow> jsnum" where
  "fl_pack pos m e =
     (if m = 0 then Fin 0 0
      else if m = 9007199254740992 then
        (if 971 \<le> e then (if pos then PosInf else NegInf)
         else Fin (if pos then 4503599627370496 else - 4503599627370496) (e + 1))
      else if 971 < e then (if pos then PosInf else NegInf)
      else Fin (if pos then m else - m) e)"

definition fl_scale :: "bool \<Rightarrow> int \<Rightarrow> int \<Rightarrow> int \<Rightarrow> jsnum" where
  "fl_scale pos a q e = fl_pack pos (round_div (a * ipow 2 (- e)) (q * ipow 2 e)) e"

text \<open>
  \<open>fl_frac p q\<close> is the double nearest to the fraction \<open>p / q\<close> (\<open>q > 0\<close>), ties to even,
  overflowing to an infinity: the rounding of every arithmetic operation and of every
  decimal literal.
\<close>

definition fl_frac :: "int \<Rightarrow> int \<Rightarrow> jsnum" where
  "fl_frac p q = (if p = 0 then Fin 0 0
     else fl_scale (0 < p) \<bar>p\<bar> q (max (ilog2 \<bar>p\<bar> q - 52) (- 1074)))"

text \<open>The double nearest to the decimal \<open>m * 10^e\<close>, and to the dyadic \<open>m * 2^e\<close>.\<close>

definition fl_dec :: "int \<Rightarrow> int \<Rightarrow> jsnum" where
  "fl_dec m e = fl_frac (m * ipow 10 e) (ipow 10 (- e))"

definition fl_dyadic :: "int \<Rightarrow> int \<Rightarrow> jsnum" where
  "fl_dyadic m e = fl_frac (m * ipow 2 e) (ipow 2 (- e))"

text \<open>\<open>Number.isNaN\<close>, the subtraction \<open>x - y\<close>, \<open>Math.abs\<close> and the comparison \<open>x < y\<close>.\<close>

definition isNaN :: "jsnum \<Rightarrow> bool" where
  "isNaN x = (x = NaN)"

fun fsub :: "jsnum \<Rightarrow> jsnum \<Rightarrow> jsnum" where
  "fsub NaN y = NaN"
| "fsub x NaN = NaN"
| "fsub PosInf PosInf = NaN"
| "fsub NegInf NegInf = NaN"
| "fsub PosInf y = PosInf"
| "fsub NegInf y = NegInf"
| "fsub (Fin m e) PosInf = NegInf"
| "fsub (Fin m e) NegInf = PosInf"
| "fsub (Fin m1 e1) (Fin m2 e2) =
     fl_dyadic (m1 * ipow 2 (e1 - min e1 e2) - m2 * ipow 2 (e2 - min e1 e2)) (min e1 e2)"

fun fabs :: "jsnum \<Rightarrow> jsnum" where
  "fabs NaN = NaN"
| "fabs PosInf = PosInf"
| "fabs NegInf = PosInf"
| "fabs (Fin m e) = Fin \<bar>m\<bar> e"

fun flt :: "jsnum \<Rightarrow> jsnum \<Rightarrow> bool" where
  "flt NaN y = False"
| "flt x NaN = False"
| "flt x NegInf = False"
| "flt NegInf y = True"
| "flt PosInf y = False"
| "flt (Fin m e) PosInf = True"
| "flt (Fin m1 e1) (Fin m2 e2) =
     (m1 * ipow 2 (e1 - min e1 e2) < m2 * ipow 2 (e2 - min e1 e2))"

subsection \<open>Number to string\<close>

text \<open>
  \<open>String(x)\<close> of a number: the shortest decimal digit string \<open>s\<close> (of \<open>k\<close> digits) and the
  exponent \<open>n\<close> with \<open>s * 10^(n - k)\<close> rounding to \<open>x\<close>, the nearest to \<open>x\<close> among the
  shortest, laid out with or without an exponent as the language standard says.
\<close>

function declen :: "int \<Rightarrow> int" where
  "declen n = (if n \<le> 0 then 0 else 1 + declen (n div 10))"
  by pat_completeness auto
termination
  by (relation "measure nat") auto

declare declen.simps [simp del]

definition digit_char :: "int \<Rightarrow> char" where
  "digit_char d = char_of (48 + d)"

function dec_digits :: "int \<Rightarrow> string" where
  "dec_digits n = (if n < 10 then [digit_char n] else dec_digits (n div 10) @ [digit_char (n mod 10)])"
  by pat_completeness auto
termination
  by (relation "measure nat") auto

declare dec_digits.simps [simp del]

text \<open>For a positive \<open>p / q\<close>: the \<open>n\<close> with \<open>10^(n - 1) \<le> p / q < 10^n\<close>.\<close>

definition dec_exponent_small :: "int \<Rightarrow> int \<Rightarrow> int \<Rightarrow> int" where
  "dec_exponent_small p q d = (if q \<le> p * ipow 10 (d - 1) then 2 - d else 1 - d)"

definition dec_exponent :: "int \<Rightarrow> int \<Rightarrow> int" where
  "dec_exponent p q = (if q \<le> p then declen (p div q) else dec_exponent_small p q (declen (q div p)))"

definition try_digits :: "jsnum \<Rightarrow> int \<Rightarrow> int \<Rightarrow> int \<Rightarrow> (int \<times> int) option" where
  "try_digits x k s n =
     (if ipow 10 (k - 1) \<le> s \<and> s < ipow 10 k \<and> fl_dec s (n - k) = x then Some (s, n) else None)"

definition try_hi :: "jsnum \<Rightarrow> int \<Rightarrow> int \<Rightarrow> int \<Rightarrow> (int \<times> int) option" where
  "try_hi x k lo n0 =
     (if lo + 1 < ipow 10 k then try_digits x k (lo + 1) n0
      else try_digits x k (ipow 10 (k - 1)) (n0 + 1))"

definition or_else :: "'a option \<Rightarrow> 'a option \<Rightarrow> 'a option" where
  "or_else a b = (case a of Some v \<Rightarrow> Some v | None \<Rightarrow> b)"

text \<open>The two \<open>k\<close>-digit candidates around \<open>nn / dd\<close>, the nearer one first.\<close>

definition digits_at :: "jsnum \<Rightarrow> int \<Rightarrow> int \<Rightarrow> int \<Rightarrow> int \<Rightarrow> (int \<times> int) option" where
  "digits_at x k n0 nn dd =
     (if 2 * (nn mod dd) < dd \<or> (2 * (nn mod dd) = dd \<and> even (nn div dd))
      then or_else (try_digits x k (nn div dd) n0) (try_hi x k (nn div dd) n0)
      else or_else (try_hi x k (nn div dd) n0) (try_digits x k (nn div dd) n0))"

fun shortest_digits :: "jsnum \<Rightarrow> int \<Rightarrow> int \<Rightarrow> int \<Rightarrow> int list \<Rightarrow> int \<times> int" where
  "shortest_digits x p q n0 [] = (0, 0)"
| "shortest_digits x p q n0 (k # ks) =
     (case digits_at x k n0 (p * ipow 10 (k - n0)) (q * ipow 10 (n0 - k)) of
        Some r \<Rightarrow> r
      | None \<Rightarrow> shortest_digits x p q n0 ks)"

definition exponent_suffix :: "int \<Rightarrow> string" where
  "exponent_suffix n = CHR ''e'' # (if 0 \<le> n - 1 then CHR ''+'' else CHR ''-'') # dec_digits \<bar>n - 1\<bar>"

definition format_digits :: "string \<Rightarrow> int \<Rightarrow> string" where
  "format_digits ds n =
     (let k = int (length ds) in
      if k \<le> n \<and> n \<le> 21 then ds @ replicate (nat (n - k)) CHR ''0''
      else if 0 < n \<and> n \<le> 21 then take (nat n) ds @ CHR ''.'' # drop (nat n) ds
      else if - 6 < n \<and> n \<le> 0 then ''0.'' @ replicate (nat (- n)) CHR ''0'' @ ds
      else if k = 1 then ds @ exponent_suffix n
      else hd ds # CHR ''.'' # tl ds @ exponent_suffix n)"

text \<open>Seventeen digits tell any two doubles apart, so the search never runs out.\<close>

definition positive_to_string :: "int \<Rightarrow> int \<Rightarrow> string" where
  "positive_to_string m e =
     (let p = m * ipow 2 e; q = ipow 2 (- e);
          r = shortest_digits (Fin m e) p q (dec_exponent p q)
                [1, 2, 3, 4, 5, 6, 7, 8, 9, 10, 11, 12, 13, 14, 15, 16, 17]
      in format_digits (dec_digits (fst r)) (snd r))"

fun number_to_string :: "jsnum \<Rightarrow> string" where
  "number_to_string NaN = ''NaN''"
| "number_to_string PosInf = ''Infinity''"
| "number_to_string NegInf = ''-Infinity''"
| "number_to_string (Fin m e) =
     (if m = 0 then ''0''
      else if m < 0 then CHR ''-'' # positive_to_string (- m) e
      else positive_to_string m e)"

subsection \<open>parseFloat on a string\<close>

text \<open>
  \<open>parseFloat\<close> skips leading white space and reads the longest prefix that is a decimal
  literal: a sign, then \<open>Infinity\<close> or digits with an optional fraction and an optional
  exponent part. No such prefix gives \<open>NaN\<close>. Characters are bytes here, so of the
  white space of the standard the model knows tab, line feed, vertical tab, form feed,
  carriage return, space and the no-break space.
\<close>

definition is_digit :: "char \<Rightarrow> bool" where
  "is_digit c = (48 \<le> (of_char c :: nat) \<and> (of_char c :: nat) \<le> 57)"

definition is_space :: "char \<Rightarrow> bool" where
  "is_space c = ((of_char c :: nat) \<in> {9, 10, 11, 12, 13, 32, 160})"

definition digits_value :: "string \<Rightarrow> int" where
  "digits_value ds = foldl (\<lambda>v c. 10 * v + (of_char c - 48)) 0 ds"

text \<open>The exponent part, \<open>e\<close> or \<open>E\<close>, an optional sign and digits; without digits it is not read.\<close>

definition exponent_part :: "string \<Rightarrow> int" where
  "exponent_part s =
     (case s of
        c # t \<Rightarrow>
          if c = CHR ''e'' \<or> c = CHR ''E'' then
            (case t of
               d # u \<Rightarrow>
                 if d = CHR ''-'' then - digits_value (takeWhile is_digit u)
                 else if d = CHR ''+'' then digits_value (takeWhile is_digit u)
                 else digits_value (takeWhile is_digit t)
             | [] \<Rightarrow> 0)
          else 0
      | [] \<Rightarrow> 0)"

text \<open>The unsigned literal as mantissa and decimal exponent; \<open>None\<close> when no prefix is one.\<close>

definition unsigned_literal :: "string \<Rightarrow> (int \<times> int) option" where
  "unsigned_literal s =
     (let ip = takeWhile is_digit s; r = dropWhile is_digit s in
      case r of
        c # t \<Rightarrow>
          if c = CHR ''.'' then
            (let fp = takeWhile is_digit t in
             if ip = [] \<and> fp = [] then None
             else Some (digits_value (ip @ fp), exponent_part (dropWhile is_digit t) - int (length fp)))
          else if ip = [] then None
          else Some (digits_value ip, exponent_part r)
      | [] \<Rightarrow> if ip = [] then None else Some (digits_value ip, 0))"

definition parse_unsigned :: "bool \<Rightarrow> string \<Rightarrow> jsnum" where
  "parse_unsigned neg s =
     (if take 8 s = ''Infinity'' then (if neg then NegInf else PosInf)
      else case unsigned_literal s of
             None \<Rightarrow> NaN
           | Some (m, e) \<Rightarrow> fl_dec (if neg then - m else m) e)"

definition parseFloat_string :: "string \<Rightarrow> jsnum" where
  "parseFloat_string s =
     (case dropWhile is_space s of
        c # t \<Rightarrow>
          if c = CHR ''-'' then parse_unsigned True t
          else if c = CHR ''+'' then parse_unsigned False t
          else parse_unsigned False (c # t)
      | [] \<Rightarrow> NaN)"

section \<open>JavaScript values\<close>

text \<open>
  The values the record store hands to the program are JSON values (a \<open>selected_answer\<close>
  and a \<open>correct_answer\<close> are JSON columns), and the page adds \<open>undefined\<close>. \<open>JNum m e\<close>
  is the number literal \<open>m * 10^e\<close>; the number it denotes is the double \<open>fl_dec m e\<close>.
\<close>

datatype jsval =
    JNull
  | JUndefined
  | JBool bool
  | JNum int int
  | JStr string
  | JArr "jsval list"
  | JObj "(string \<times> jsval) list"

datatype exn = TypeError

text \<open>
  \<open>x || y\<close> and \<open>!x\<close> read a value as a truth value: \<open>null\<close>, \<open>undefined\<close>, \<open>false\<close>,
  zero and the empty string are falsy, everything else is truthy.
\<close>

fun truthy :: "jsval \<Rightarrow> bool" where
  "truthy JNull = False"
| "truthy JUndefined = False"
| "truthy (JBool b) = b"
| "truthy (JNum m e) = (fl_dec m e \<noteq> Fin 0 0)"
| "truthy (JStr s) = (s \<noteq> [])"
| "truthy (JArr xs) = True"
| "truthy (JObj kvs) = True"

text \<open>
  \<open>String(x)\<close>. An array joins its elements with commas, \<open>null\<close> and \<open>undefined\<close>
  elements giving nothing. An object parsed from JSON prints as \<open>[object Object]\<close>,
  unless it has a key \<open>toString\<close> of its own: that value is not a function, the inherited
  \<open>valueOf\<close> returns the object itself, and the conversion throws a TypeError.
\<close>

fun join_strings :: "(exn + string) list \<Rightarrow> exn + string" where
  "join_strings [] = Inr []"
| "join_strings [x] = x"
| "join_strings (x # y # ys) =
     (case x of
        Inl err \<Rightarrow> Inl err
      | Inr s \<Rightarrow> (case join_strings (y # ys) of Inl err \<Rightarrow> Inl err | Inr t \<Rightarrow> Inr (s @ '','' @ t)))"

fun ToString :: "jsval \<Rightarrow> exn + string" where
  "ToString JNull = Inr ''null''"
| "ToString JUndefined = Inr ''undefined''"
| "ToString (JBool b) = Inr (if b then ''true'' else ''false'')"
| "ToString (JNum m e) = Inr (number_to_string (fl_dec m e))"
| "ToString (JStr s) = Inr s"
| "ToString (JArr xs) =
     join_strings (map (\<lambda>x. if x = JNull \<or> x = JUndefined then Inr [] else ToString x) xs)"
| "ToString (JObj kvs) =
     (if ''toString'' \<in> set (map fst kvs) then Inl TypeError else Inr ''[object Object]'')"

text \<open>\<open>parseFloat(x)\<close> converts its argument to a string first.\<close>

definition parseFloat :: "jsval \<Rightarrow> exn + jsnum" where
  "parseFloat v = (case ToString v of Inl err \<Rightarrow> Inl err | Inr s \<Rightarrow> Inr (parseFloat_string s))"

text \<open>Reading an array at an index: \<open>undefined\<close>, here \<open>None\<close>, out of range.\<close>

definition js_index :: "'a list \<Rightarrow> int \<Rightarrow> 'a option" where
  "js_index xs i = (if 0 \<le> i \<and> i < int (length xs) then Some (xs ! nat i) else None)"

text \<open>\<open>toUpperCase\<close>, on the ASCII letters.\<close>

definition upper_char :: "char \<Rightarrow> char" where
  "upper_char c =
     (if 97 \<le> (of_char c :: nat) \<and> (of_char c :: nat) \<le> 122 then char_of ((of_char c :: nat) - 32) else c)"

definition toUpperCase :: "string \<Rightarrow> string" where
  "toUpperCase s = map upper_char s"

section \<open>The answer judge\<close>

text \<open>
  \<open>isAnswerCorrect\<close> of the report page. The two guards come first; the comparison
  runs inside \<open>try\<close>, and the \<open>catch\<close> turns an exception into \<open>false\<close>.
\<close>

definition isAnswerCorrect :: "string \<Rightarrow> jsval \<Rightarrow> jsval \<Rightarrow> bool" where
  "isAnswerCorrect qType selected correct =
     (if selected = JNull \<or> selected = JUndefined \<or> selected = JStr [] then False
      else case correct of
        JArr (correctAnswer # rest) \<Rightarrow>
          (case (if qType = ''SINGLE_CHOICE'' then
                   (case ToString selected of
                      Inl err \<Rightarrow> Inl err
                    | Inr s \<Rightarrow>
                        (case ToString correctAnswer of
                           Inl err \<Rightarrow> Inl err
                         | Inr c \<Rightarrow> Inr (s = c)))
                 else if qType = ''NUMERICAL'' then
                   (case parseFloat selected of
                      Inl err \<Rightarrow> Inl err
                    | Inr selectedNum \<Rightarrow>
                        (case parseFloat correctAnswer of
                           Inl err \<Rightarrow> Inl err
                         | Inr correctNum \<Rightarrow>
                             if isNaN selectedNum \<or> isNaN correctNum then Inr False
                             else Inr (flt (fabs (fsub correctNum selectedNum)) (fl_dec 1 (- 2)))))
                 else Inr False) of
             Inl err \<Rightarrow> False
           | Inr b \<Rightarrow> b)
      | _ \<Rightarrow> False)"

text \<open>The copy of the judge in the \<open>calculate-score\<close> function of the server.\<close>

definition isAnswerCorrect_server :: "string \<Rightarrow> jsval \<Rightarrow> jsval \<Rightarrow> bool" where
  "isAnswerCorrect_server qType selected correct =
     (if selected = JNull \<or> selected = JUndefined \<or> selected = JStr [] then False
      else case correct of
        JArr (correctAnswer # rest) \<Rightarrow>
          (case (if qType = ''SINGLE_CHOICE'' then
                   (case ToString selected of
                      Inl err \<Rightarrow> Inl err
                    | Inr s \<Rightarrow>
                        (case ToString correctAnswer of
                           Inl err \<Rightarrow> Inl err
                         | Inr c \<Rightarrow> Inr (s = c)))
                 else if qType = ''NUMERICAL'' then
                   (case parseFloat selected of
                      Inl err \<Rightarrow> Inl err
                    | Inr selectedNum \<Rightarrow>
                        (case parseFloat correctAnswer of
                           Inl err \<Rightarrow> Inl err
                         | Inr correctNum \<Rightarrow>
                             if isNaN selectedNum \<or> isNaN correctNum then Inr False
                             else Inr (flt (fabs (fsub correctNum selectedNum)) (fl_dec 1 (- 2)))))
                 else Inr False) of
             Inl err \<Rightarrow> False
           | Inr b \<Rightarrow> b)
      | _ \<Rightarrow> False)"

section \<open>The record store's rows\<close>

text \<open>
  A row of \<open>Questions\<close>, with the columns the scoring reads (the image and the options
  are only drawn). A row of \<open>Test_Questions_Link\<close> carries the joined \<open>Questions\<close> value,
  which the three readers of the repository expect in different shapes: nothing, one row
  object, or an array of rows (an element may be \<open>null\<close>).
\<close>

record Question =
  question_id :: string
  question_type :: string
  subject :: "string option"
  correct_answer :: jsval
  question_text :: "string option"
  solution_text :: "string option"

datatype joined = NoRow | OneRow Question | Rows "Question option list"

record Test_Questions_Link =
  question_number :: int
  Questions :: joined

text \<open>
  The rows of \<open>User_Answer_Responses\<close> of one attempt, as pairs of \<open>question_id\<close> and
  \<open>selected_answer\<close>, and the \<open>Map\<close> both scoring paths fill from them with \<open>set\<close>, a
  later row replacing an earlier one.
\<close>

type_synonym answer_map = "string \<rightharpoonup> jsval"

definition build_answerMap :: "(string \<times> jsval) list \<Rightarrow> answer_map" where
  "build_answerMap userAnswers = foldl (\<lambda>m ans. m(fst ans \<mapsto> snd ans)) Map.empty userAnswers"

text \<open>\<open>answerMap.get(question_id) || null\<close>\<close>

definition get_or_null :: "answer_map \<Rightarrow> string \<Rightarrow> jsval" where
  "get_or_null answerMap k =
     (case answerMap k of None \<Rightarrow> JNull | Some v \<Rightarrow> if truthy v then v else JNull)"

section \<open>The report page\<close>

datatype ReportStatus = CORRECT | INCORRECT | UNATTEMPTED

record QuestionAnalysis =
  qa_question_id :: string
  qa_question_number :: int
  qa_question_text :: "string option"
  qa_subject :: "string option"
  qa_correct_answer :: jsval
  qa_solution_text :: "string option"
  qa_selected_answer :: jsval
  qa_status :: ReportStatus

record SubjectStats =
  correct :: int
  incorrect :: int
  unattempted :: int
  score :: int

text \<open>
  \<open>subjectStats\<close> is an object keyed by subject; it is kept as the list of its entries
  in the order the keys were added, every key once. The keys are upper-cased, so none
  meets a property the empty object inherits, and nothing proved below depends on the
  order in which the keys are listed.
\<close>

record ReportData =
  testName :: string
  totalScore :: int
  totalCorrect :: int
  totalIncorrect :: int
  totalUnattempted :: int
  subjectStats :: "(string \<times> SubjectStats) list"
  report_questions :: "QuestionAnalysis list"

definition ensure_subject :: "string \<Rightarrow> (string \<times> SubjectStats) list \<Rightarrow> (string \<times> SubjectStats) list" where
  "ensure_subject sub stats =
     (if map_of stats sub = None
      then stats @ [(sub, \<lparr>correct = 0, incorrect = 0, unattempted = 0, score = 0\<rparr>)]
      else stats)"

definition modify_subject ::
  "string \<Rightarrow> (SubjectStats \<Rightarrow> SubjectStats) \<Rightarrow> (string \<times> SubjectStats) list \<Rightarrow> (string \<times> SubjectStats) list" where
  "modify_subject sub f stats = map (\<lambda>entry. if fst entry = sub then (fst entry, f (snd entry)) else entry) stats"

text \<open>The three branches of the classification, each with its two increments.\<close>

definition count_status :: "ReportStatus \<Rightarrow> string \<Rightarrow> ReportData \<Rightarrow> ReportData" where
  "count_status st sub r =
     (case st of
        UNATTEMPTED \<Rightarrow>
          r\<lparr>totalUnattempted := totalUnattempted r + 1,
            subjectStats := modify_subject sub (\<lambda>x. x\<lparr>unattempted := unattempted x + 1\<rparr>) (subjectStats r)\<rparr>
      | CORRECT \<Rightarrow>
          r\<lparr>totalCorrect := totalCorrect r + 1,
            subjectStats := modify_subject sub (\<lambda>x. x\<lparr>correct := correct x + 1\<rparr>) (subjectStats r)\<rparr>
      | INCORRECT \<Rightarrow>
          r\<lparr>totalIncorrect := totalIncorrect r + 1,
            subjectStats := modify_subject sub (\<lambda>x. x\<lparr>incorrect := incorrect x + 1\<rparr>) (subjectStats r)\<rparr>)"

definition classify :: "Question \<Rightarrow> jsval \<Rightarrow> ReportStatus" where
  "classify q selected =
     (if selected = JNull \<or> selected = JStr [] then UNATTEMPTED
      else if isAnswerCorrect (question_type q) selected (correct_answer q) then CORRECT
      else INCORRECT)"

definition subject_key :: "Question \<Rightarrow> string" where
  "subject_key q =
     toUpperCase (case subject q of
                    None \<Rightarrow> ''UNCATEGORIZED''
                  | Some s \<Rightarrow> if s = [] then ''UNCATEGORIZED'' else s)"

text \<open>
  One round of the loop over \<open>questionLinks\<close>. The report page goes on only when
  \<open>link.Questions\<close> is a non-empty array whose first element is a row.
\<close>

definition report_step :: "answer_map \<Rightarrow> ReportData \<Rightarrow> Test_Questions_Link \<Rightarrow> ReportData" where
  "report_step answerMap r link =
     (case Questions link of
        Rows (Some q # rest) \<Rightarrow>
          (let selected = get_or_null answerMap (question_id q);
               sub = subject_key q;
               r1 = r\<lparr>subjectStats := ensure_subject sub (subjectStats r)\<rparr>;
               st = classify q selected;
               r2 = count_status st sub r1
           in r2\<lparr>report_questions := report_questions r2 @
                 [\<lparr>qa_question_id = question_id q,
                   qa_question_number = question_number link,
                   qa_question_text = question_text q,
                   qa_subject = subject q,
                   qa_correct_answer = correct_answer q,
                   qa_solution_text = solution_text q,
                   qa_selected_answer = selected,
                   qa_status = st\<rparr>]\<rparr>)
      | _ \<Rightarrow> r)"

definition calculate_scores :: "ReportData \<Rightarrow> ReportData" where
  "calculate_scores r =
     r\<lparr>totalScore := totalCorrect r * 4 - totalIncorrect r * 1,
       subjectStats := map (\<lambda>entry. (fst entry, (snd entry)\<lparr>score := correct (snd entry) * 4 - incorrect (snd entry) * 1\<rparr>))
                         (subjectStats r)\<rparr>"

definition newReportData :: "string \<Rightarrow> ReportData" where
  "newReportData name =
     \<lparr>testName = name, totalScore = 0, totalCorrect = 0, totalIncorrect = 0, totalUnattempted = 0,
      subjectStats = [], report_questions = []\<rparr>"

text \<open>
  \<open>generateReport\<close>, from the fetched rows on: the answer map, the loop, the scores.
  The test's name, the answers of the attempt and the links of the test are what the
  three queries before returned.
\<close>

definition generateReport :: "string \<Rightarrow> (string \<times> jsval) list \<Rightarrow> Test_Questions_Link list \<Rightarrow> ReportData" where
  "generateReport name userAnswers questionLinks =
     calculate_scores (foldl (report_step (build_answerMap userAnswers)) (newReportData name) questionLinks)"

section \<open>The server's recomputation\<close>

text \<open>
  The loop of \<open>calculate-score\<close> keeps the two counters. It takes the first element when
  \<open>link.Questions\<close> is an array and the value itself otherwise.
\<close>

definition resolve_server :: "joined \<Rightarrow> Question option" where
  "resolve_server j =
     (case j of
        Rows xs \<Rightarrow> (case xs of [] \<Rightarrow> None | x # rest \<Rightarrow> x)
      | OneRow q \<Rightarrow> Some q
      | NoRow \<Rightarrow> None)"

definition server_step :: "answer_map \<Rightarrow> int \<times> int \<Rightarrow> Test_Questions_Link \<Rightarrow> int \<times> int" where
  "server_step answerMap counters link =
     (case resolve_server (Questions link) of
        None \<Rightarrow> counters
      | Some q \<Rightarrow>
          (let selected = get_or_null answerMap (question_id q) in
           if selected = JNull then counters
           else if isAnswerCorrect_server (question_type q) selected (correct_answer q)
           then (fst counters + 1, snd counters)
           else (fst counters, snd counters + 1)))"

definition finalScore :: "int \<times> int \<Rightarrow> int" where
  "finalScore counters = fst counters * 4 - snd counters * 1"

definition calculate_score :: "(string \<times> jsval) list \<Rightarrow> Test_Questions_Link list \<Rightarrow> int" where
  "calculate_score userAnswers questionLinks =
     finalScore (foldl (server_step (build_answerMap userAnswers)) (0, 0) questionLinks)"

section \<open>The test page\<close>

datatype AnswerStatus = not_visited | unanswered | answered | marked_for_review

record QuestionState =
  status :: AnswerStatus
  selected_answer :: jsval
  time_taken_sec :: int

type_synonym TestState = "string \<rightharpoonup> QuestionState"

datatype AttemptStatus = STARTED | COMPLETED

record AnswerResponse =
  response_selected_answer :: jsval
  action :: AnswerStatus

text \<open>
  The state of one session of the page. First the component's state variables (the ref
  \<open>testStateRef\<close> is assigned \<open>testState\<close> after every render, so a handler reads the
  same map from both), then the part of the record store the page writes (the responses
  of this attempt by \<open>question_id\<close>, the attempt's \<open>status\<close> and \<open>end_time\<close>), then what the
  browser was told: the alerts, the console's errors and the route pushed. \<open>testState\<close>
  is an object keyed by \<open>question_id\<close>, read as the map of its own keys. A handler is
  given the state it reads and returns the state its updates lead to.
\<close>

record Session =
  attemptId :: string
  questions :: "Question list"
  timeLeft :: int
  currentQuestionIndex :: int
  testState :: TestState
  loading :: bool
  isSubmitting :: bool
  User_Answer_Responses :: "string \<rightharpoonup> AnswerResponse"
  attempt_status :: AttemptStatus
  end_time :: "string option"
  alerts :: "string list"
  console_errors :: "string list"
  route :: "string option"

definition getQuestionState :: "Session \<Rightarrow> string \<Rightarrow> QuestionState" where
  "getQuestionState s qId =
     (case testState s qId of
        Some st \<Rightarrow> st
      | None \<Rightarrow> \<lparr>status = not_visited, selected_answer = JNull, time_taken_sec = 0\<rparr>)"

text \<open>
  \<open>saveAnswerToDB\<close>. The store answers the upsert with an error or without one
  (\<open>upsert_error\<close>); a rejected upsert leaves the store as it was and is only logged.
\<close>

definition saveAnswerToDB :: "string option \<Rightarrow> string \<Rightarrow> Session \<Rightarrow> Session" where
  "saveAnswerToDB upsert_error qId s =
     (case testState s qId of
        None \<Rightarrow> s
      | Some stateToSave \<Rightarrow>
          (let dbAction = (if status stateToSave = not_visited then unanswered else status stateToSave) in
           case upsert_error of
             None \<Rightarrow>
               s\<lparr>User_Answer_Responses := (User_Answer_Responses s)
                    (qId \<mapsto> \<lparr>response_selected_answer = selected_answer stateToSave, action = dbAction\<rparr>)\<rparr>
           | Some err \<Rightarrow> s\<lparr>console_errors := console_errors s @ [''Failed to save answer:'']\<rparr>))"

text \<open>
  \<open>navigateToQuestion\<close>. Reading \<open>question_id\<close> of an element that is not there throws
  a TypeError, before anything was changed.
\<close>

definition navigateToQuestion :: "string option \<Rightarrow> int \<Rightarrow> Session \<Rightarrow> exn + Session" where
  "navigateToQuestion upsert_error newIndex s =
     (if newIndex < 0 \<or> int (length (questions s)) \<le> newIndex \<or> newIndex = currentQuestionIndex s
      then Inr s
      else case js_index (questions s) (currentQuestionIndex s) of
        None \<Rightarrow> Inl TypeError
      | Some oldQ \<Rightarrow>
          (let s1 = saveAnswerToDB upsert_error (question_id oldQ) s in
           case js_index (questions s) newIndex of
             None \<Rightarrow> Inl TypeError
           | Some newQ \<Rightarrow>
               (let newQId = question_id newQ;
                    newState = getQuestionState s newQId;
                    s2 = (if status newState = not_visited
                          then s1\<lparr>testState := (testState s1)(newQId \<mapsto> newState\<lparr>status := unanswered\<rparr>)\<rparr>
                          else s1)
                in Inr (s2\<lparr>currentQuestionIndex := newIndex\<rparr>))))"

definition handleSaveAndNext :: "string option \<Rightarrow> Session \<Rightarrow> exn + Session" where
  "handleSaveAndNext upsert_error s = navigateToQuestion upsert_error (currentQuestionIndex s + 1) s"

definition jumpToQuestion :: "string option \<Rightarrow> int \<Rightarrow> Session \<Rightarrow> exn + Session" where
  "jumpToQuestion upsert_error index s = navigateToQuestion upsert_error index s"

definition handleClearResponse :: "Session \<Rightarrow> exn + Session" where
  "handleClearResponse s =
     (case js_index (questions s) (currentQuestionIndex s) of
        None \<Rightarrow> Inl TypeError
      | Some q \<Rightarrow>
          (let qId = question_id q; oldQState = getQuestionState s qId in
           Inr (s\<lparr>testState := (testState s)(qId \<mapsto> oldQState\<lparr>status := unanswered, selected_answer := JNull\<rparr>)\<rparr>)))"

definition handleAnswerChange :: "jsval \<Rightarrow> Session \<Rightarrow> exn + Session" where
  "handleAnswerChange selectedOption s =
     (case js_index (questions s) (currentQuestionIndex s) of
        None \<Rightarrow> Inl TypeError
      | Some q \<Rightarrow>
          (let qId = question_id q;
               newStatus = (if selectedOption \<noteq> JNull \<and> selectedOption \<noteq> JStr [] then answered else unanswered);
               oldQState = getQuestionState s qId
           in Inr (s\<lparr>testState := (testState s)
                        (qId \<mapsto> oldQState\<lparr>selected_answer := selectedOption, status := newStatus\<rparr>)\<rparr>)))"

text \<open>
  \<open>handleSubmitTest\<close>, run to its end: \<open>confirmSubmit\<close> is the user's answer to the
  confirmation, \<open>upsert_error\<close> and \<open>update_error\<close> are the store's answers to the final
  save and to the update of the attempt, \<open>now\<close> is the time written as \<open>end_time\<close>. A
  rejected update leaves the attempt as it was. \<open>submit_confirmed\<close> is the function from
  \<open>setIsSubmitting(true)\<close> on: it starts in the state with the flag set, the state the
  page is in while the two requests are awaited. The TypeError of a missing current
  question is thrown there, with the flag set.
\<close>

definition submit_confirmed ::
  "string option \<Rightarrow> string option \<Rightarrow> string \<Rightarrow> Session \<Rightarrow> exn \<times> Session + Session" where
  "submit_confirmed upsert_error update_error now s1 =
     (case js_index (questions s1) (currentQuestionIndex s1) of
        None \<Rightarrow> Inl (TypeError, s1)
      | Some q \<Rightarrow>
          (let s2 = saveAnswerToDB upsert_error (question_id q) s1 in
           case update_error of
             Some err \<Rightarrow>
               Inr (s2\<lparr>console_errors := console_errors s2 @ [''Error submitting test:''],
                      alerts := alerts s2 @ [''There was an error submitting your test. Please try again.''],
                      isSubmitting := False\<rparr>)
           | None \<Rightarrow>
               Inr (s2\<lparr>attempt_status := COMPLETED,
                      end_time := Some now,
                      route := Some (''/report/'' @ attemptId s2)\<rparr>)))"

definition handleSubmitTest ::
  "bool \<Rightarrow> string option \<Rightarrow> string option \<Rightarrow> string \<Rightarrow> Session \<Rightarrow> exn \<times> Session + Session" where
  "handleSubmitTest confirmSubmit upsert_error update_error now s =
     (if isSubmitting s then Inr s
      else if \<not> confirmSubmit then Inr s
      else submit_confirmed upsert_error update_error now (s\<lparr>isSubmitting := True\<rparr>))"

text \<open>
  The timer effect, which runs after a render in which \<open>timeLeft\<close>, \<open>loading\<close> or
  \<open>isSubmitting\<close> has changed. It either leaves an interval running, whose callback is
  \<open>tick\<close>, or none; at zero it calls \<open>handleSubmitTest\<close>, whose outcome is given here as
  for a call run to its end.
\<close>

datatype timer = Stopped | Ticking

definition timer_effect ::
  "bool \<Rightarrow> string option \<Rightarrow> string option \<Rightarrow> string \<Rightarrow> Session \<Rightarrow> timer \<times> (exn \<times> Session + Session)" where
  "timer_effect confirmSubmit upsert_error update_error now s =
     (if loading s \<or> isSubmitting s then (Stopped, Inr s)
      else if timeLeft s \<le> 0 then (Stopped, handleSubmitTest confirmSubmit upsert_error update_error now s)
      else (Ticking, Inr s))"

definition tick :: "Session \<Rightarrow> Session" where
  "tick s = s\<lparr>timeLeft := timeLeft s - 1\<rparr>"

text \<open>
  The current index is a position of \<open>questions\<close>, or still the initial 0 while no
  question is loaded: it starts at 0 and navigation only ever stores an index it has
  checked against the bounds.
\<close>

definition index_ok :: "Session \<Rightarrow> bool" where
  "index_ok s = (0 \<le> currentQuestionIndex s \<and>
     (currentQuestionIndex s < int (length (questions s)) \<or> currentQuestionIndex s = 0))"

section \<open>Sample data\<close>

definition example_question :: "string \<Rightarrow> Question" where
  "example_question qid =
     \<lparr>question_id = qid, question_type = ''SINGLE_CHOICE'', subject = Some ''Physics'',
      correct_answer = JArr [JStr ''A''], question_text = None, solution_text = None\<rparr>"

text \<open>
  A session on its first question of three: the first marked for review, the second not
  yet visited, the third answered.
\<close>

definition example_session :: Session where
  "example_session =
     \<lparr>attemptId = ''a1'',
      questions = [example_question ''q1'', example_question ''q2'', example_question ''q3''],
      timeLeft = 60,
      currentQuestionIndex = 0,
      testState = [''q1'' \<mapsto> \<lparr>status = marked_for_review, selected_answer = JStr ''A'', time_taken_sec = 0\<rparr>,
                   ''q2'' \<mapsto> \<lparr>status = not_visited, selected_answer = JNull, time_taken_sec = 0\<rparr>,
                   ''q3'' \<mapsto> \<lparr>status = answered, selected_answer = JStr ''C'', time_taken_sec = 0\<rparr>],
      loading = False,
      isSubmitting = False,
      User_Answer_Responses = Map.empty,
      attempt_status = STARTED,
      end_time = None,
      alerts = [],
      console_errors = [],
      route = None\<rparr>"

text \<open>The sample session with one second left, and what a tick makes of it.\<close>

definition last_second_session :: Session where
  "last_second_session = example_session\<lparr>timeLeft := 1\<rparr>"

definition expired_session :: Session where
  "expired_session = example_session\<lparr>timeLeft := 0\<rparr>"

definition scenario_questions :: "Question list" where
  "scenario_questions =
     [\<lparr>question_id = ''q1'', question_type = ''SINGLE_CHOICE'', subject = Some ''Physics'',
       correct_answer = JArr [JStr ''A''], question_text = None, solution_text = None\<rparr>,
      \<lparr>question_id = ''q2'', question_type = ''SINGLE_CHOICE'', subject = Some ''physics'',
       correct_answer = JArr [JStr ''B''], question_text = None, solution_text = None\<rparr>,
      \<lparr>question_id = ''q3'', question_type = ''NUMERICAL'', subject = None,
       correct_answer = JArr [JNum 10 0], question_text = None, solution_text = None\<rparr>]"

text \<open>
  A test of three questions, each link joined to its row as a one-element array, and an
  attempt that answered the first rightly, the second wrongly and the third not at all.
\<close>

definition scenario_links :: "Test_Questions_Link list" where
  "scenario_links =
     map (\<lambda>q. \<lparr>question_number = 1, Questions = Rows [Some q]\<rparr>) scenario_questions"

definition scenario_answers :: "(string \<times> jsval) list" where
  "scenario_answers = [(''q1'', JStr ''A''), (''q2'', JStr ''C'')]"

text \<open>A numerical question whose right answer is zero.\<close>

definition zero_question :: Question where
  "zero_question =
     \<lparr>question_id = ''z'', question_type = ''NUMERICAL'', subject = Some ''Maths'',
      correct_answer = JArr [JNum 0 0], question_text = None, solution_text = None\<rparr>"

text \<open>The sample attempt with that question added as the fourth, answered with the number 0.\<close>

definition zero_attempt_answers :: "(string \<times> jsval) list" where
  "zero_attempt_answers = scenario_answers @ [(''z'', JNum 0 0)]"

definition zero_attempt_links :: "Test_Questions_Link list" where
  "zero_attempt_links =
     scenario_links @ [\<lparr>question_number = 4, Questions = Rows [Some zero_question]\<rparr>]"

section \<open>Notions used in the proofs\<close>

text \<open>
  What the loop of the report keeps true: the subjects are listed once each, every total
  is the sum of its column over the subjects, and each listed question was counted once.
\<close>

definition counters_match :: "ReportData \<Rightarrow> bool" where
  "counters_match r =
     (distinct (map fst (subjectStats r)) \<and>
      totalCorrect r = sum_list (map (\<lambda>entry. correct (snd entry)) (subjectStats r)) \<and>
      totalIncorrect r = sum_list (map (\<lambda>entry. incorrect (snd entry)) (subjectStats r)) \<and>
      totalUnattempted r = sum_list (map (\<lambda>entry. unattempted (snd entry)) (subjectStats r)) \<and>
      totalCorrect r + totalIncorrect r + totalUnattempted r = int (length (report_questions r)))"

text \<open>
  A link whose joined row cannot be resolved: the join is \<open>null\<close>, an empty array, or an
  array that starts with \<open>null\<close>.
\<close>

definition unresolved :: "Test_Questions_Link \<Rightarrow> bool" where
  "unresolved link =
     (case Questions link of
        NoRow \<Rightarrow> True
      | Rows [] \<Rightarrow> True
      | Rows (None # rest) \<Rightarrow> True
      | _ \<Rightarrow> False)"

text \<open>
  An entry of the report's question list shows the answer the lookup gave for its
  question, and is \<open>UNATTEMPTED\<close> when that answer is \<open>null\<close>.
\<close>

definition entry_ok :: "answer_map \<Rightarrow> QuestionAnalysis \<Rightarrow> bool" where
  "entry_ok m qa =
     (qa_selected_answer qa = get_or_null m (qa_question_id qa) \<and>
      (if qa_selected_answer qa = JNull then qa_status qa = UNATTEMPTED else True))"

text \<open>
  A link of the question \<open>k\<close>: the server's reading of its join is a row with that id.
  The report's reading, when it has one, is the same row.
\<close>

definition link_of_question :: "string \<Rightarrow> Test_Questions_Link \<Rightarrow> bool" where
  "link_of_question k link =
     (case resolve_server (Questions link) of
        Some q \<Rightarrow> question_id q = k
      | None \<Rightarrow> False)"

text \<open>A column of the subject table read at a subject, zero where the subject has no entry.\<close>

definition subject_stat :: "(SubjectStats \<Rightarrow> int) \<Rightarrow> ReportData \<Rightarrow> string \<Rightarrow> int" where
  "subject_stat f r sub = (case map_of (subjectStats r) sub of None \<Rightarrow> 0 | Some st \<Rightarrow> f st)"

text \<open>How many entries of the report's question list belong to the question \<open>k\<close>.\<close>

definition entries_of :: "string \<Rightarrow> ReportData \<Rightarrow> int" where
  "entries_of k r = int (length (filter (\<lambda>qa. qa_question_id qa = k) (report_questions r)))"

text \<open>
  Two reports that differ at most by entries of the question \<open>k\<close> counted as unattempted:
  the same correct and incorrect counts, in total and subject by subject.
\<close>

definition same_marks :: "string \<Rightarrow> ReportData \<Rightarrow> ReportData \<Rightarrow> bool" where
  "same_marks k r r' =
     (totalCorrect r = totalCorrect r' \<and> totalIncorrect r = totalIncorrect r' \<and>
      totalUnattempted r - entries_of k r = totalUnattempted r' - entries_of k r' \<and>
      (\<forall>sub. subject_stat correct r sub = subject_stat correct r' sub \<and>
             subject_stat incorrect r sub = subject_stat incorrect r' sub))"

text \<open>
  The number a finite double stands for, \<open>m * 2^e\<close>, and the number a decimal literal
  stands for, \<open>m * 10^e\<close>, as rationals.
\<close>

definition dyadic :: "int \<Rightarrow> int \<Rightarrow> rat" where
  "dyadic m e = of_int m * 2 powi e"

definition decimal :: "int \<Rightarrow> int \<Rightarrow> rat" where
  "decimal m e = of_int m * 10 powi e"

text \<open>
  The finite doubles in their normal form: zero, the normal numbers with a mantissa of
  53 bits, and the subnormal numbers at the least exponent.
\<close>

definition is_double :: "int \<Rightarrow> int \<Rightarrow> bool" where
  "is_double m e =
     (m = 0 \<and> e = 0 \<or>
      4503599627370496 \<le> \<bar>m\<bar> \<and> \<bar>m\<bar> < 9007199254740992 \<and> - 1074 \<le> e \<and> e \<le> 971 \<or>
      m \<noteq> 0 \<and> \<bar>m\<bar> < 4503599627370496 \<and> e = - 1074)"

text \<open>
  From \<open>2^1024 - 2^970\<close> on, half way between the largest double and \<open>2^1024\<close>, a
  number rounds to an infinity.
\<close>

definition overflow_threshold :: rat where
  "overflow_threshold = 2 ^ 1024 - 2 ^ 970"

text \<open>
  \<open>Fin m e\<close> is the double nearest to \<open>x\<close>: no double is nearer, and where another
  double is as near, the mantissa \<open>m\<close> is even.
\<close>

definition nearest_even :: "rat \<Rightarrow> int \<Rightarrow> int \<Rightarrow> bool" where
  "nearest_even x m e =
     (is_double m e \<and>
      (\<forall>m' e'. is_double m' e' \<longrightarrow>
         \<bar>dyadic m e - x\<bar> \<le> \<bar>dyadic m' e' - x\<bar> \<and>
         (\<bar>dyadic m e - x\<bar> = \<bar>dyadic m' e' - x\<bar> \<and> dyadic m' e' \<noteq> dyadic m e \<longrightarrow> even m)))"

text \<open>
  \<open>rounds_to x r\<close>: the double \<open>r\<close> is the rational \<open>x\<close> rounded as IEEE 754 rounds in
  its default mode, to the nearest double with ties to even, and to an infinity from
  the overflow threshold on.
\<close>

fun rounds_to :: "rat \<Rightarrow> jsnum \<Rightarrow> bool" where
  "rounds_to x NaN = False"
| "rounds_to x PosInf = (overflow_threshold \<le> x)"
| "rounds_to x NegInf = (x \<le> - overflow_threshold)"
| "rounds_to x (Fin m e) = (\<bar>x\<bar> < overflow_threshold \<and> nearest_even x m e)"

text \<open>The negation of a double, used to carry the rounding of a positive number over.\<close>

fun fneg :: "jsnum \<Rightarrow> jsnum" where
  "fneg NaN = NaN"
| "fneg PosInf = NegInf"
| "fneg NegInf = PosInf"
| "fneg (Fin m e) = Fin (- m) e"

section \<open>Properties of the number model\<close>

text \<open>
  The doubles of the model are the doubles of IEEE 754: \<open>fl_frac\<close> rounds a fraction to
  the nearest double with ties to even, comparison and absolute value are those of the
  numbers the doubles stand for, and a subtraction returns the exact difference rounded.
\<close>

subsection \<open>Powers and exact operations\<close>

text \<open>\<open>ipow\<close> is the power function, and a ratio of two of its values a power of the rationals.\<close>

lemma ipow_nonpos: "n \<le> 0 \<Longrightarrow> ipow b n = 1"
  by (simp add: ipow.simps)

lemma ipow_nonneg: "0 \<le> n \<Longrightarrow> ipow b n = b ^ nat n"
proof (induction b n rule: ipow.induct)
  case (1 b n)
  show ?case
  proof (cases "n = 0")
    case True
    then show ?thesis by (simp add: ipow.simps)
  next
    case False
    with 1 have pos: "0 < n" by simp
    show ?thesis
    proof (cases "even n")
      case True
      then obtain h where h: "n = 2 * h" by (auto elim: evenE)
      with pos have "0 \<le> h" by simp
      have "ipow b (n div 2) = b ^ nat (n div 2)"
        using 1(1) pos True by simp
      then have "ipow b n = (b ^ nat h) * (b ^ nat h)"
        using pos True h by (subst ipow.simps) (simp add: sq_def)
      also have "\<dots> = b ^ nat n"
        using \<open>0 \<le> h\<close> h by (simp add: nat_mult_distrib flip: power_add mult_2)
      finally show ?thesis .
    next
      case False
      have "ipow b (n - 1) = b ^ nat (n - 1)"
        using 1(2) pos False by simp
      then have "ipow b n = b * b ^ nat (n - 1)"
        using pos False by (subst ipow.simps) simp
      also have "\<dots> = b ^ nat n"
        using pos by (metis Suc_nat_eq_nat_zadd1 add.commute diff_add_cancel diff_ge_0_iff_ge int_one_le_iff_zero_less power_Suc)
      finally show ?thesis .
    qed
  qed
qed

lemma ipow_pos: "0 < b \<Longrightarrow> 0 < ipow b n"
  by (cases "0 \<le> n") (simp_all add: ipow_nonneg ipow_nonpos)

lemma ipow_ratio:
  assumes "0 < b"
  shows "(of_int (ipow b n) :: rat) / of_int (ipow b (- n)) = of_int b powi n"
proof (cases "0 \<le> n")
  case True
  then show ?thesis
    by (simp add: ipow_nonneg ipow_nonpos power_int_def)
next
  case False
  then show ?thesis
    by (simp add: ipow_nonneg ipow_nonpos power_int_def field_simps)
qed


lemma two_powi_pos: "(0::rat) < 2 powi e"
  by simp

text \<open>A double written at a smaller exponent; comparison and absolute value are exact.\<close>

lemma dyadic_align:
  assumes "e \<le> e1"
  shows "dyadic m e1 = of_int (m * ipow 2 (e1 - e)) * 2 powi e"
proof -
  have "(2::rat) powi e1 = 2 powi (e1 - e) * 2 powi e"
    by (simp flip: power_int_add)
  moreover have "(of_int (ipow 2 (e1 - e)) :: rat) = 2 powi (e1 - e)"
    using assms by (simp add: ipow_nonneg power_int_def)
  ultimately show ?thesis
    by (simp add: dyadic_def)
qed

lemma flt_Fin: "flt (Fin m1 e1) (Fin m2 e2) = (dyadic m1 e1 < dyadic m2 e2)"
proof -
  let ?e = "min e1 e2"
  have "dyadic m1 e1 = of_int (m1 * ipow 2 (e1 - ?e)) * 2 powi ?e"
    and "dyadic m2 e2 = of_int (m2 * ipow 2 (e2 - ?e)) * 2 powi ?e"
    by (rule dyadic_align, simp)+
  then have "(dyadic m1 e1 < dyadic m2 e2) =
      ((of_int (m1 * ipow 2 (e1 - ?e)) :: rat) < of_int (m2 * ipow 2 (e2 - ?e)))"
    using two_powi_pos [of ?e] by (simp only: mult_less_cancel_right_pos)
  then show ?thesis
    by (simp only: flt.simps of_int_less_iff)
qed

lemma fabs_Fin: "fabs (Fin m e) = Fin (\<bar>m\<bar>) e \<and> dyadic (\<bar>m\<bar>) e = \<bar>dyadic m e\<bar>"
  by (simp add: dyadic_def abs_mult)

text \<open>
  The fractions handed to \<open>fl_frac\<close> are the number to be rounded: the value of a decimal
  literal, and the exact difference of two doubles.
\<close>

lemma scaled_ratio:
  assumes "(of_int x :: rat) / of_int y = z"
  shows "(of_int (m * x) :: rat) / of_int y = of_int m * z"
  using assms by (simp flip: assms)

lemma fl_dyadic_exact:
  "fl_dyadic m e = fl_frac (m * ipow 2 e) (ipow 2 (- e)) \<and> 0 < ipow 2 (- e) \<and>
   (of_int (m * ipow 2 e) :: rat) / of_int (ipow 2 (- e)) = dyadic m e"
  using scaled_ratio [OF ipow_ratio [of 2 e], of m]
  by (simp add: fl_dyadic_def ipow_pos dyadic_def)

lemma fl_dec_exact:
  "fl_dec m e = fl_frac (m * ipow 10 e) (ipow 10 (- e)) \<and> 0 < ipow 10 (- e) \<and>
   (of_int (m * ipow 10 e) :: rat) / of_int (ipow 10 (- e)) = decimal m e"
  using scaled_ratio [OF ipow_ratio [of 10 e], of m]
  by (simp add: fl_dec_def ipow_pos decimal_def)

lemma fsub_Fin:
  "\<exists>m e. fsub (Fin m1 e1) (Fin m2 e2) = fl_dyadic m e \<and> dyadic m e = dyadic m1 e1 - dyadic m2 e2"
proof -
  let ?e = "min e1 e2"
  let ?a1 = "m1 * ipow 2 (e1 - ?e)"
  let ?a2 = "m2 * ipow 2 (e2 - ?e)"
  have d1: "dyadic m1 e1 = of_int ?a1 * 2 powi ?e"
    and d2: "dyadic m2 e2 = of_int ?a2 * 2 powi ?e"
    by (rule dyadic_align, simp)+
  have "dyadic (?a1 - ?a2) ?e = of_int ?a1 * 2 powi ?e - of_int ?a2 * 2 powi ?e"
    unfolding dyadic_def by (simp only: of_int_diff left_diff_distrib)
  also have "\<dots> = dyadic m1 e1 - dyadic m2 e2"
    by (simp only: d1 d2)
  finally show ?thesis
    by (intro exI [of _ "?a1 - ?a2"] exI [of _ ?e]) simp
qed


subsection \<open>The binary logarithm and the rounded division\<close>

text \<open>\<open>ilog2 a q\<close> is the exponent of the power of two at or just below \<open>a / q\<close>.\<close>

lemma bitlen_bounds:
  "0 < n \<Longrightarrow> 1 \<le> bitlen n \<and> 2 ^ nat (bitlen n - 1) \<le> n \<and> n < 2 ^ nat (bitlen n)"
proof (induction n rule: bitlen.induct)
  case (1 n)
  then have b: "bitlen n = 1 + bitlen (n div 2)"
    by (subst bitlen.simps) simp
  show ?case
  proof (cases "n div 2 = 0")
    case True
    with 1(2) have "n = 1" by presburger
    moreover have "bitlen 0 = 0" by (simp add: bitlen.simps)
    ultimately show ?thesis using b by simp
  next
    case False
    with 1(2) have h: "0 < n div 2" by presburger
    with 1 have ih: "1 \<le> bitlen (n div 2)" "2 ^ nat (bitlen (n div 2) - 1) \<le> n div 2"
      "n div 2 < 2 ^ nat (bitlen (n div 2))"
      by simp_all
    have e1: "nat (bitlen n - 1) = Suc (nat (bitlen (n div 2) - 1))"
      using b ih(1) by simp
    have e2: "nat (bitlen n) = Suc (nat (bitlen (n div 2)))"
      using b ih(1) by simp
    have "2 * (n div 2) \<le> n" and "n < 2 * (n div 2) + 2" by presburger+
    then show ?thesis
      using ih b unfolding e1 e2 by simp
  qed
qed


lemma of_int_two_power: "0 \<le> k \<Longrightarrow> (of_int (2 ^ nat k) :: rat) = 2 powi k"
  by (simp add: power_int_def)

lemma bitlen_rat_bounds:
  assumes "0 < n"
  shows "(2::rat) powi (bitlen n - 1) \<le> of_int n" and "(of_int n :: rat) < 2 powi bitlen n"
proof -
  from bitlen_bounds [OF assms] have b: "1 \<le> bitlen n" "2 ^ nat (bitlen n - 1) \<le> n"
    "n < 2 ^ nat (bitlen n)" by simp_all
  have "(of_int (2 ^ nat (bitlen n - 1)) :: rat) \<le> of_int n"
    using b(2) by (simp only: of_int_le_iff)
  then show "(2::rat) powi (bitlen n - 1) \<le> of_int n"
    using b(1) by (simp only: of_int_two_power)
  have "(of_int n :: rat) < of_int (2 ^ nat (bitlen n))"
    using b(3) by (simp only: of_int_less_iff)
  then show "(of_int n :: rat) < 2 powi bitlen n"
    using b(1) by (simp only: of_int_two_power)
qed

lemma ilog2_adjust_test:
  assumes "0 < a" and "0 < q"
  shows "(q * ipow 2 d \<le> a * ipow 2 (- d)) = ((2::rat) powi d \<le> of_int a / of_int q)"
proof -
  have r: "(of_int (ipow 2 d) :: rat) / of_int (ipow 2 (- d)) = 2 powi d"
    using ipow_ratio [of 2 d] by simp
  have px: "(0::rat) < of_int (ipow 2 d)" and py: "(0::rat) < of_int (ipow 2 (- d))"
    by (simp_all add: ipow_pos)
  have "(q * ipow 2 d \<le> a * ipow 2 (- d)) =
        ((of_int q :: rat) * of_int (ipow 2 d) \<le> of_int a * of_int (ipow 2 (- d)))"
    by (simp only: of_int_le_iff flip: of_int_mult)
  also have "\<dots> = ((of_int (ipow 2 d) :: rat) / of_int (ipow 2 (- d)) \<le> of_int a / of_int q)"
    using assms py by (simp add: field_simps)
  finally show ?thesis by (simp only: r)
qed

lemma ilog2_bounds:
  assumes "0 < a" and "0 < q"
  shows "(2::rat) powi ilog2 a q \<le> of_int a / of_int q"
    and "(of_int a :: rat) / of_int q < 2 powi (ilog2 a q + 1)"
proof -
  let ?x = "(of_int a :: rat) / of_int q"
  let ?d = "bitlen a - bitlen q"
  have qp: "(0::rat) < of_int q" using assms by simp
  have "?x < 2 powi bitlen a / 2 powi (bitlen q - 1)"
    using bitlen_rat_bounds [OF assms(1)] bitlen_rat_bounds [OF assms(2)] assms
    by (intro frac_less) simp_all
  then have up: "?x < 2 powi (?d + 1)"
    by (simp add: power_int_diff power_int_add)
  have "2 powi (bitlen a - 1) / 2 powi bitlen q < ?x"
    using bitlen_rat_bounds [OF assms(1)] bitlen_rat_bounds [OF assms(2)] qp
    by (intro frac_less2) simp_all
  then have lo: "2 powi (?d - 1) < ?x"
    by (simp add: power_int_diff)
  have t: "(q * ipow 2 ?d \<le> a * ipow 2 (- ?d)) = ((2::rat) powi ?d \<le> ?x)"
    by (rule ilog2_adjust_test [OF assms])
  have both: "(2::rat) powi ilog2 a q \<le> ?x \<and> ?x < 2 powi (ilog2 a q + 1)"
  proof (cases "q * ipow 2 ?d \<le> a * ipow 2 (- ?d)")
    case True
    then have l: "ilog2 a q = ?d"
      by (simp only: ilog2_def ilog2_adjust_def if_True)
    from True t have "(2::rat) powi ?d \<le> ?x" by simp
    with up show ?thesis by (simp only: l)
  next
    case False
    then have l: "ilog2 a q = ?d - 1"
      by (simp only: ilog2_def ilog2_adjust_def if_False)
    from False t have "?x < (2::rat) powi ?d" by simp
    with lo show ?thesis by (simp add: l)
  qed
  then show "(2::rat) powi ilog2 a q \<le> ?x" and "?x < 2 powi (ilog2 a q + 1)"
    by simp_all
qed


text \<open>
  \<open>round_div n d\<close> is an integer nearest to \<open>n / d\<close>, at most a half away, and even when
  exactly a half away.
\<close>

lemma round_div_cases:
  assumes "0 < d"
  obtains t :: rat where "0 \<le> t" and "t < 1"
    and "of_int n / of_int d = of_int (n div d) + t"
    and "round_div n d = n div d \<and> (t < 1 / 2 \<or> t = 1 / 2 \<and> even (n div d)) \<or>
         round_div n d = n div d + 1 \<and> (1 / 2 < t \<or> t = 1 / 2 \<and> odd (n div d))"
proof -
  let ?t = "(of_int (n mod d) :: rat) / of_int d"
  have dp: "(0::rat) < of_int d" using assms by simp
  have r: "0 \<le> n mod d" "n mod d < d" using assms by simp_all
  have t0: "0 \<le> ?t" using r(1) dp by simp
  have t1: "?t < 1" using r(2) dp by simp
  have "(of_int n :: rat) = of_int (n div d) * of_int d + of_int (n mod d)"
    by (simp flip: of_int_mult of_int_add)
  then have y: "(of_int n :: rat) / of_int d = of_int (n div d) + ?t"
    using dp by (simp add: field_simps)
  have c1: "(2 * (n mod d) < d) = (?t < 1 / 2)"
  proof -
    have "(2 * (n mod d) < d) = ((of_int (2 * (n mod d)) :: rat) < of_int d)"
      by (simp only: of_int_less_iff)
    also have "\<dots> = (?t < 1 / 2)"
      using dp by (simp add: field_simps)
    finally show ?thesis .
  qed
  have c2: "(d < 2 * (n mod d)) = (1 / 2 < ?t)"
  proof -
    have "(d < 2 * (n mod d)) = ((of_int d :: rat) < of_int (2 * (n mod d)))"
      by (simp only: of_int_less_iff)
    also have "\<dots> = (1 / 2 < ?t)"
      using dp by (simp add: field_simps)
    finally show ?thesis .
  qed
  have "round_div n d = n div d \<and> (?t < 1 / 2 \<or> ?t = 1 / 2 \<and> even (n div d)) \<or>
        round_div n d = n div d + 1 \<and> (1 / 2 < ?t \<or> ?t = 1 / 2 \<and> odd (n div d))"
    unfolding round_div_def ties_even_def c1 c2 by auto
  with t0 t1 y show ?thesis by (rule that)
qed

lemma round_div_nearest:
  assumes "0 < d"
  shows "\<bar>of_int (round_div n d) - (of_int n :: rat) / of_int d\<bar> \<le> \<bar>of_int k - of_int n / of_int d\<bar>"
proof -
  obtain t :: rat where t: "0 \<le> t" "t < 1" "of_int n / of_int d = of_int (n div d) + t"
    "round_div n d = n div d \<and> (t < 1 / 2 \<or> t = 1 / 2 \<and> even (n div d)) \<or>
     round_div n d = n div d + 1 \<and> (1 / 2 < t \<or> t = 1 / 2 \<and> odd (n div d))"
    using round_div_cases [OF assms] by blast
  have k: "(of_int k :: rat) \<le> of_int (n div d) \<or> (of_int (n div d) :: rat) + 1 \<le> of_int k"
  proof (cases "k \<le> n div d")
    case True
    then show ?thesis by simp
  next
    case False
    then have "n div d + 1 \<le> k" by simp
    then have "(of_int (n div d + 1) :: rat) \<le> of_int k" by (simp only: of_int_le_iff)
    then show ?thesis by simp
  qed
  from t(4) show ?thesis
  proof
    assume "round_div n d = n div d \<and> (t < 1 / 2 \<or> t = 1 / 2 \<and> even (n div d))"
    then have "round_div n d = n div d" and "t \<le> 1 / 2" by auto
    then show ?thesis using t(1,2) k unfolding t(3) by auto
  next
    assume "round_div n d = n div d + 1 \<and> (1 / 2 < t \<or> t = 1 / 2 \<and> odd (n div d))"
    then have "round_div n d = n div d + 1" and "1 / 2 \<le> t" by auto
    then show ?thesis using t(1,2) k unfolding t(3) by auto
  qed
qed

lemma round_div_tie:
  assumes "0 < d"
    and "\<bar>of_int (round_div n d) - (of_int n :: rat) / of_int d\<bar> = 1 / 2"
  shows "even (round_div n d)"
proof -
  obtain t :: rat where t: "0 \<le> t" "t < 1" "of_int n / of_int d = of_int (n div d) + t"
    "round_div n d = n div d \<and> (t < 1 / 2 \<or> t = 1 / 2 \<and> even (n div d)) \<or>
     round_div n d = n div d + 1 \<and> (1 / 2 < t \<or> t = 1 / 2 \<and> odd (n div d))"
    using round_div_cases [OF assms(1)] by blast
  from t(4) show ?thesis
  proof
    assume a: "round_div n d = n div d \<and> (t < 1 / 2 \<or> t = 1 / 2 \<and> even (n div d))"
    then have "t = 1 / 2" using assms(2) t(1,2) unfolding t(3) by auto
    with a show ?thesis by auto
  next
    assume a: "round_div n d = n div d + 1 \<and> (1 / 2 < t \<or> t = 1 / 2 \<and> odd (n div d))"
    then have "t = 1 / 2" using assms(2) t(1,2) unfolding t(3) by auto
    with a show ?thesis by auto
  qed
qed

lemma round_div_half:
  assumes "0 < d"
  shows "\<bar>of_int (round_div n d) - (of_int n :: rat) / of_int d\<bar> \<le> 1 / 2"
proof -
  obtain t :: rat where t: "0 \<le> t" "t < 1" "of_int n / of_int d = of_int (n div d) + t"
    "round_div n d = n div d \<and> (t < 1 / 2 \<or> t = 1 / 2 \<and> even (n div d)) \<or>
     round_div n d = n div d + 1 \<and> (1 / 2 < t \<or> t = 1 / 2 \<and> odd (n div d))"
    using round_div_cases [OF assms] by blast
  from t(4) show ?thesis
  proof
    assume "round_div n d = n div d \<and> (t < 1 / 2 \<or> t = 1 / 2 \<and> even (n div d))"
    then have "round_div n d = n div d" and "t \<le> 1 / 2" by auto
    then show ?thesis using t(1,2) unfolding t(3) by auto
  next
    assume "round_div n d = n div d + 1 \<and> (1 / 2 < t \<or> t = 1 / 2 \<and> odd (n div d))"
    then have "round_div n d = n div d + 1" and "1 / 2 \<le> t" by auto
    then show ?thesis using t(1,2) unfolding t(3) by auto
  qed
qed

subsection \<open>Rounding to the nearest double\<close>

text \<open>
  The mantissa is the scaled number \<open>y\<close> rounded to an integer \<open>m0\<close>. A double at the
  same or a larger exponent is an integer multiple of the unit, and so no nearer than
  \<open>m0\<close>; a double at a smaller exponent lies below \<open>2^52\<close> units, strictly farther away.
\<close>

lemma int_apart:
  assumes "k \<noteq> (m::int)"
  shows "1 \<le> \<bar>(of_int k :: rat) - of_int m\<bar>"
proof -
  have "1 \<le> \<bar>k - m\<bar>" using assms by simp
  then have "(of_int 1 :: rat) \<le> of_int \<bar>k - m\<bar>" by (simp only: of_int_le_iff)
  then show ?thesis by simp
qed

lemma scaled_compare:
  fixes y :: rat
  assumes near: "\<And>k. \<bar>of_int m0 - y\<bar> \<le> \<bar>of_int k - y\<bar>"
    and half: "\<bar>of_int m0 - y\<bar> \<le> 1 / 2"
    and e: "- 1074 \<le> e"
    and lo: "- 1074 < e \<Longrightarrow> 4503599627370496 \<le> y"
    and d: "is_double m' e'"
  shows "\<bar>dyadic m0 e - y * 2 powi e\<bar> \<le> \<bar>dyadic m' e' - y * 2 powi e\<bar> \<and>
    (\<bar>dyadic m0 e - y * 2 powi e\<bar> = \<bar>dyadic m' e' - y * 2 powi e\<bar> \<and> dyadic m' e' \<noteq> dyadic m0 e
       \<longrightarrow> \<bar>of_int m0 - y\<bar> = 1 / 2)"
proof -
  define P where "P = (2::rat) powi e"
  have P: "0 < P" by (simp add: P_def)
  have d0: "dyadic m0 e - y * P = (of_int m0 - y) * P"
    by (simp add: dyadic_def P_def algebra_simps)
  have a0: "\<bar>dyadic m0 e - y * P\<bar> = \<bar>of_int m0 - y\<bar> * P"
    using P by (simp add: d0 abs_mult)
  consider (A) k where "dyadic m' e' = of_int k * P" | (B) "e' < e" and "m' \<noteq> 0"
  proof (cases "m' = 0")
    case True
    then have "dyadic m' e' = of_int 0 * P" by (simp add: dyadic_def)
    then show ?thesis by (rule A)
  next
    case m: False
    show ?thesis
    proof (cases "e \<le> e'")
      case True
      then have "dyadic m' e' = of_int (m' * ipow 2 (e' - e)) * P"
        unfolding P_def by (rule dyadic_align)
      then show ?thesis by (rule A)
    next
      case False
      then have "e' < e" by simp
      then show ?thesis using m by (rule B)
    qed
  qed
  then have "\<bar>dyadic m0 e - y * P\<bar> \<le> \<bar>dyadic m' e' - y * P\<bar> \<and>
    (\<bar>dyadic m0 e - y * P\<bar> = \<bar>dyadic m' e' - y * P\<bar> \<and> dyadic m' e' \<noteq> dyadic m0 e
       \<longrightarrow> \<bar>of_int m0 - y\<bar> = 1 / 2)"
  proof cases
    case A
    have d1: "dyadic m' e' - y * P = (of_int k - y) * P"
      by (simp add: A algebra_simps)
    have a1: "\<bar>dyadic m' e' - y * P\<bar> = \<bar>of_int k - y\<bar> * P"
      using P by (simp add: d1 abs_mult)
    have le: "\<bar>of_int m0 - y\<bar> * P \<le> \<bar>of_int k - y\<bar> * P"
      using near [of k] P by (simp add: mult_right_mono)
    have tie: "\<bar>of_int m0 - y\<bar> = 1 / 2"
      if eq: "\<bar>dyadic m0 e - y * P\<bar> = \<bar>dyadic m' e' - y * P\<bar>" and ne: "dyadic m' e' \<noteq> dyadic m0 e"
    proof -
      have "\<bar>of_int m0 - y\<bar> * P = \<bar>of_int k - y\<bar> * P" using eq by (simp only: a0 a1)
      then have same: "\<bar>of_int m0 - y\<bar> = \<bar>of_int k - y\<bar>" using P by simp
      have "dyadic m0 e = of_int m0 * P" by (simp add: dyadic_def P_def)
      then have "k \<noteq> m0" using ne A by auto
      then have "1 \<le> \<bar>(of_int k :: rat) - of_int m0\<bar>" by (rule int_apart)
      then show ?thesis using same half by linarith
    qed
    show ?thesis using le tie by (simp only: a0 a1) blast
  next
    case B
    from d B(2) have e': "- 1074 \<le> e'" and m': "\<bar>m'\<bar> < 9007199254740992"
      by (auto simp add: is_double_def)
    have "- 1074 < e" using e' B(1) by simp
    then have y: "4503599627370496 \<le> y" by (rule lo)
    have "(of_int \<bar>m'\<bar> :: rat) < of_int 9007199254740992"
      using m' by (simp only: of_int_less_iff)
    then have mr: "\<bar>of_int m' :: rat\<bar> < 9007199254740992" by simp
    have p1: "(2::rat) powi e' \<le> 2 powi (e - 1)"
      using B(1) by (intro power_int_increasing) simp_all
    have p2: "(2::rat) powi (e - 1) = P / 2"
      by (simp add: power_int_diff P_def)
    have p0: "(0::rat) < 2 powi e'" by simp
    have "\<bar>dyadic m' e'\<bar> = \<bar>of_int m'\<bar> * 2 powi e'"
      by (simp add: dyadic_def abs_mult)
    also have "\<dots> < 9007199254740992 * 2 powi e'"
      using mr p0 by (rule mult_strict_right_mono)
    also have "\<dots> \<le> 9007199254740992 * (P / 2)"
      using p1 unfolding p2 by simp
    also have "\<dots> = 4503599627370496 * P" by simp
    finally have small: "\<bar>dyadic m' e'\<bar> < 4503599627370496 * P" .
    have yP: "4503599627370496 * P \<le> y * P"
      using y P by (simp add: mult_right_mono)
    have "\<bar>of_int m0 - y\<bar> \<le> \<bar>of_int 4503599627370496 - y\<bar>" by (rule near)
    then have "\<bar>of_int m0 - y\<bar> \<le> y - 4503599627370496" using y by simp
    then have "\<bar>of_int m0 - y\<bar> * P \<le> (y - 4503599627370496) * P"
      using P by (simp add: mult_right_mono)
    then have up: "\<bar>dyadic m0 e - y * P\<bar> \<le> y * P - 4503599627370496 * P"
      unfolding a0 by (simp only: left_diff_distrib)
    have "\<bar>dyadic m0 e - y * P\<bar> < \<bar>dyadic m' e' - y * P\<bar>"
      using up small yP by linarith
    then show ?thesis by simp
  qed
  then show ?thesis unfolding P_def .
qed


text \<open>
  Packing the rounded mantissa gives the nearest double, or an infinity from the
  overflow threshold on: a mantissa rounded up to \<open>2^53\<close> moves to the next exponent.
\<close>

lemma pack_rounds:
  fixes y :: rat
  assumes near: "\<And>k. \<bar>of_int m0 - y\<bar> \<le> \<bar>of_int k - y\<bar>"
    and half: "\<bar>of_int m0 - y\<bar> \<le> 1 / 2"
    and tie: "\<bar>of_int m0 - y\<bar> = 1 / 2 \<Longrightarrow> even m0"
    and e: "- 1074 \<le> e"
    and lo: "- 1074 < e \<Longrightarrow> 4503599627370496 \<le> y"
    and hi: "y < 9007199254740992"
    and pos: "0 < y"
  shows "rounds_to (y * 2 powi e) (fl_pack True m0 e)"
proof -
  define P where "P = (2::rat) powi e"
  define x where "x = y * P"
  have P: "0 < P" by (simp add: P_def)
  have x: "0 < x" using pos P by (simp add: x_def)
  have cmp: "\<bar>dyadic m0 e - x\<bar> \<le> \<bar>dyadic m' e' - x\<bar> \<and>
    (\<bar>dyadic m0 e - x\<bar> = \<bar>dyadic m' e' - x\<bar> \<and> dyadic m' e' \<noteq> dyadic m0 e
       \<longrightarrow> \<bar>of_int m0 - y\<bar> = 1 / 2)" if "is_double m' e'" for m' e'
    unfolding x_def P_def using near half e lo that by (rule scaled_compare)
  have T: "(9007199254740992 - 1 / 2) * (2::rat) powi 971 = overflow_threshold"
    by (simp add: overflow_threshold_def)
  have m0_nonneg: "0 \<le> m0"
  proof (rule ccontr)
    assume "\<not> 0 \<le> m0"
    then have "m0 \<le> - 1" by simp
    then have "(of_int m0 :: rat) \<le> of_int (- 1)" by (simp only: of_int_le_iff)
    then show False using half pos by simp
  qed
  have m0_le: "m0 \<le> 9007199254740992"
  proof (rule ccontr)
    assume "\<not> m0 \<le> 9007199254740992"
    then have "9007199254740993 \<le> m0" by simp
    then have "(of_int 9007199254740993 :: rat) \<le> of_int m0" by (simp only: of_int_le_iff)
    then show False using half hi by simp
  qed
  have m0_ge: "4503599627370496 \<le> m0" if "- 1074 < e"
  proof (rule ccontr)
    assume "\<not> 4503599627370496 \<le> m0"
    then have "m0 \<le> 4503599627370495" by simp
    then have "(of_int m0 :: rat) \<le> of_int 4503599627370495" by (simp only: of_int_le_iff)
    then show False using half lo [OF that] by simp
  qed
  have result: "rounds_to x (fl_pack True m0 e)"
  proof (cases "m0 = 0")
    case True
    have y: "y \<le> 1 / 2" using half True by simp
    have "\<not> - 1074 < e" using lo y by auto
    then have e0: "e = - 1074" using e by simp
    have "P \<le> 1" by (simp add: P_def e0)
    then have "y * P \<le> (1 / 2) * 1" using y pos P by (intro mult_mono) simp_all
    then have small: "\<bar>x\<bar> < overflow_threshold"
      using x by (simp add: x_def overflow_threshold_def)
    have d: "dyadic 0 0 = dyadic m0 e" by (simp add: dyadic_def True)
    have "nearest_even x 0 0"
      unfolding nearest_even_def d using cmp by (simp add: is_double_def)
    then show ?thesis using small by (simp add: fl_pack_def True)
  next
    case nz: False
    show ?thesis
    proof (cases "m0 = 9007199254740992")
      case top: True
      have "\<bar>9007199254740992 - y\<bar> \<le> 1 / 2" using half by (simp add: top)
      then have y: "9007199254740992 - 1 / 2 \<le> y" by linarith
      show ?thesis
      proof (cases "971 \<le> e")
        case True
        then have "(2::rat) powi 971 \<le> P"
          unfolding P_def by (intro power_int_increasing) simp_all
        then have "(9007199254740992 - 1 / 2) * (2::rat) powi 971 \<le> y * P"
          using y by (intro mult_mono) simp_all
        then have "overflow_threshold \<le> x" by (simp only: T x_def)
        then show ?thesis using True by (simp add: fl_pack_def top)
      next
        case False
        then have e970: "e \<le> 970" by simp
        then have "P \<le> (2::rat) powi 970"
          unfolding P_def by (intro power_int_increasing) simp_all
        then have "y * P \<le> 9007199254740992 * 2 powi 970"
          using hi pos P by (intro mult_mono) simp_all
        then have small: "\<bar>x\<bar> < overflow_threshold"
          using x by (simp add: x_def overflow_threshold_def)
        have "(2::rat) powi (e + 1) = 2 powi e * 2" by (simp add: power_int_add)
        then have d: "dyadic 4503599627370496 (e + 1) = dyadic m0 e"
          by (simp add: dyadic_def top)
        have "is_double 4503599627370496 (e + 1)"
          using e e970 by (simp add: is_double_def)
        then have "nearest_even x 4503599627370496 (e + 1)"
          unfolding nearest_even_def d using cmp by simp
        then show ?thesis using small False by (simp add: fl_pack_def top)
      qed
    next
      case mid: False
      have range: "0 < m0" "m0 \<le> 9007199254740991"
        using nz mid m0_nonneg m0_le by simp_all
      show ?thesis
      proof (cases "971 < e")
        case True
        then have "- 1074 < e" by simp
        then have y: "4503599627370496 \<le> y" by (rule lo)
        have "972 \<le> e" using True by simp
        then have "(2::rat) powi 972 \<le> P"
          unfolding P_def by (intro power_int_increasing) simp_all
        then have "4503599627370496 * (2::rat) powi 972 \<le> y * P"
          using y by (intro mult_mono) simp_all
        then have "overflow_threshold \<le> x"
          by (simp add: x_def overflow_threshold_def)
        then show ?thesis using True nz mid by (simp add: fl_pack_def)
      next
        case False
        then have e971: "e \<le> 971" by simp
        have "(of_int m0 :: rat) \<le> of_int 9007199254740991"
          using range(2) by (simp only: of_int_le_iff)
        then have mr: "(of_int m0 :: rat) \<le> 9007199254740991" by simp
        have "y \<noteq> 9007199254740992 - 1 / 2"
        proof
          assume y: "y = 9007199254740992 - 1 / 2"
          then have "(of_int m0 :: rat) = of_int 9007199254740991"
            using half mr by simp
          then have m: "m0 = 9007199254740991" by (simp only: of_int_eq_iff)
          then have "\<bar>of_int m0 - y\<bar> = 1 / 2" by (simp add: y)
          then have "even m0" by (rule tie)
          then show False by (simp add: m)
        qed
        then have y: "y < 9007199254740992 - 1 / 2" using half mr by linarith
        have "P \<le> (2::rat) powi 971"
          unfolding P_def using e971 by (intro power_int_increasing) simp_all
        then have "(9007199254740992 - 1 / 2) * P \<le> (9007199254740992 - 1 / 2) * 2 powi 971"
          by (intro mult_left_mono) simp_all
        moreover have "y * P < (9007199254740992 - 1 / 2) * P"
          using y P by (rule mult_strict_right_mono)
        ultimately have "x < overflow_threshold" by (simp only: T x_def)
        then have small: "\<bar>x\<bar> < overflow_threshold" using x by simp
        have dbl: "is_double m0 e"
        proof (cases "- 1074 < e")
          case True
          then show ?thesis using m0_ge range e971 by (simp add: is_double_def)
        next
          case False
          then have "e = - 1074" using e by simp
          then show ?thesis using range by (auto simp add: is_double_def)
        qed
        have "nearest_even x m0 e"
          unfolding nearest_even_def using dbl cmp tie by blast
        then show ?thesis using small False nz mid by (simp add: fl_pack_def)
      qed
    qed
  qed
  then show ?thesis unfolding x_def P_def .
qed


text \<open>The exponent chosen from the binary logarithm puts the scaled number in range.\<close>

lemma fl_scale_rounds:
  assumes a: "0 < a" and q: "0 < q"
  shows "rounds_to (of_int a / of_int q) (fl_scale True a q (max (ilog2 a q - 52) (- 1074)))"
proof -
  define x where "x = (of_int a :: rat) / of_int q"
  define L where "L = ilog2 a q"
  define e where "e = max (L - 52) (- 1074)"
  define N where "N = a * ipow 2 (- e)"
  define D where "D = q * ipow 2 e"
  define y where "y = (of_int N :: rat) / of_int D"
  have x: "0 < x" using a q by (simp add: x_def)
  have L: "(2::rat) powi L \<le> x" "x < 2 powi (L + 1)"
    unfolding x_def L_def using a q by (rule ilog2_bounds)+
  have D: "0 < D" using q by (simp add: D_def ipow_pos)
  have e: "- 1074 \<le> e" "L - 52 \<le> e" by (simp_all add: e_def)
  have "(of_int (ipow 2 (- e)) :: rat) / of_int (ipow 2 (- (- e))) = of_int 2 powi (- e)"
    by (rule ipow_ratio) simp
  then have r: "(of_int (ipow 2 (- e)) :: rat) / of_int (ipow 2 e) = 2 powi (- e)" by simp
  have y: "y = x * 2 powi (- e)"
    unfolding y_def N_def D_def x_def by (simp flip: r)
  have "y * 2 powi e = x * (2 powi (- e) * 2 powi e)" by (simp add: y)
  also have "(2::rat) powi (- e) * 2 powi e = 1" by (simp add: power_int_minus)
  finally have xy: "y * 2 powi e = x" by simp
  have ypos: "0 < y" using x by (simp add: y)
  have pe: "(0::rat) < 2 powi (- e)" by simp
  have "y < 2 powi (L + 1) * 2 powi (- e)"
    unfolding y using L(2) pe by (rule mult_strict_right_mono)
  also have "\<dots> = 2 powi (L + 1 - e)" by (simp add: power_int_diff power_int_minus field_simps)
  also have "\<dots> \<le> 2 powi 53"
    using e(2) by (intro power_int_increasing) simp_all
  finally have hi: "y < 9007199254740992" by simp
  have lo: "4503599627370496 \<le> y" if "- 1074 < e"
  proof -
    have eL: "e = L - 52" using that by (simp add: e_def max_def split: if_splits)
    have "(2::rat) powi L * 2 powi (- e) \<le> y"
      unfolding y using L(1) pe by (simp add: mult_right_mono)
    moreover have "(2::rat) powi L * 2 powi (- e) = 2 powi (L - e)"
      by (simp add: power_int_diff power_int_minus field_simps)
    moreover have "(2::rat) powi (L - e) = 4503599627370496" by (simp add: eL)
    ultimately show ?thesis by simp
  qed
  have "rounds_to (y * 2 powi e) (fl_pack True (round_div N D) e)"
  proof (rule pack_rounds)
    show "\<bar>of_int (round_div N D) - y\<bar> \<le> \<bar>of_int k - y\<bar>" for k
      unfolding y_def using D by (rule round_div_nearest)
    show "\<bar>of_int (round_div N D) - y\<bar> \<le> 1 / 2"
      unfolding y_def using D by (rule round_div_half)
    show "even (round_div N D)" if "\<bar>of_int (round_div N D) - y\<bar> = 1 / 2"
      using D that unfolding y_def by (rule round_div_tie)
    show "- 1074 \<le> e" by (rule e(1))
    show "4503599627370496 \<le> y" if "- 1074 < e" using that by (rule lo)
    show "y < 9007199254740992" by (rule hi)
    show "0 < y" by (rule ypos)
  qed
  then show ?thesis
    unfolding xy by (simp add: fl_scale_def x_def N_def D_def e_def L_def)
qed

text \<open>Negative numbers round as their absolute values do.\<close>

lemma is_double_neg: "is_double (- m) e = is_double m e"
  by (simp add: is_double_def)

lemma dyadic_neg: "dyadic (- m) e = - dyadic m e"
  by (simp add: dyadic_def)

lemma nearest_even_neg:
  assumes "nearest_even x m e"
  shows "nearest_even (- x) (- m) e"
  unfolding nearest_even_def
proof (intro conjI allI impI)
  show "is_double (- m) e" using assms by (simp add: nearest_even_def is_double_neg)
next
  fix m' e'
  assume "is_double m' e'"
  then have d: "is_double (- m') e'" by (simp add: is_double_neg)
  have flip: "\<bar>dyadic (- m) e - - x\<bar> = \<bar>dyadic m e - x\<bar>"
    "\<bar>dyadic m' e' - - x\<bar> = \<bar>dyadic (- m') e' - x\<bar>"
    by (simp_all add: dyadic_neg)
  from assms d have n: "\<bar>dyadic m e - x\<bar> \<le> \<bar>dyadic (- m') e' - x\<bar>"
    and t: "\<bar>dyadic m e - x\<bar> = \<bar>dyadic (- m') e' - x\<bar> \<and> dyadic (- m') e' \<noteq> dyadic m e \<longrightarrow> even m"
    unfolding nearest_even_def by blast+
  show "\<bar>dyadic (- m) e - - x\<bar> \<le> \<bar>dyadic m' e' - - x\<bar>"
    using n by (simp only: flip)
  assume h: "\<bar>dyadic (- m) e - - x\<bar> = \<bar>dyadic m' e' - - x\<bar> \<and> dyadic m' e' \<noteq> dyadic (- m) e"
  from h have h1: "\<bar>dyadic (- m) e - - x\<bar> = \<bar>dyadic m' e' - - x\<bar>"
    and h2: "dyadic m' e' \<noteq> dyadic (- m) e" by blast+
  from h1 have "\<bar>dyadic m e - x\<bar> = \<bar>dyadic (- m') e' - x\<bar>" by (simp only: flip)
  moreover from h2 have "dyadic (- m') e' \<noteq> dyadic m e" by (auto simp add: dyadic_neg)
  ultimately show "even (- m)" using t by simp
qed

lemma rounds_to_neg: "rounds_to x r \<Longrightarrow> rounds_to (- x) (fneg r)"
  by (cases r) (simp_all add: nearest_even_neg)

lemma fl_pack_neg: "fl_pack False m e = fneg (fl_pack True m e)"
  by (simp add: fl_pack_def)

lemma rounds_to_zero: "rounds_to 0 (Fin 0 0)"
  by (simp add: nearest_even_def is_double_def dyadic_def overflow_threshold_def)

text \<open>
  So \<open>fl_frac\<close> rounds correctly, and with it the reading of a decimal literal and the
  subtraction of two finite doubles.
\<close>

lemma fl_frac_rounds:
  assumes q: "0 < q"
  shows "rounds_to (of_int p / of_int q) (fl_frac p q)"
proof -
  consider "p = 0" | "0 < p" | "p < 0" by linarith
  then show ?thesis
  proof cases
    case 1
    then show ?thesis using rounds_to_zero by (simp add: fl_frac_def)
  next
    case 2
    then show ?thesis using fl_scale_rounds [OF 2 q] by (simp add: fl_frac_def)
  next
    case 3
    then have a: "0 < - p" by simp
    have "rounds_to (- (of_int (- p) / of_int q)) (fneg (fl_scale True (- p) q (max (ilog2 (- p) q - 52) (- 1074))))"
      using fl_scale_rounds [OF a q] by (rule rounds_to_neg)
    then show ?thesis using 3 by (simp add: fl_frac_def fl_scale_def fl_pack_neg)
  qed
qed

lemma fl_dec_rounds: "rounds_to (decimal m e) (fl_dec m e)"
proof -
  from fl_dec_exact [of m e] have f: "fl_dec m e = fl_frac (m * ipow 10 e) (ipow 10 (- e))"
    and q: "0 < ipow 10 (- e)"
    and v: "(of_int (m * ipow 10 e) :: rat) / of_int (ipow 10 (- e)) = decimal m e"
    by simp_all
  show ?thesis using fl_frac_rounds [OF q, of "m * ipow 10 e"] unfolding f v .
qed

lemma fl_dyadic_rounds: "rounds_to (dyadic m e) (fl_dyadic m e)"
proof -
  from fl_dyadic_exact [of m e] have f: "fl_dyadic m e = fl_frac (m * ipow 2 e) (ipow 2 (- e))"
    and q: "0 < ipow 2 (- e)"
    and v: "(of_int (m * ipow 2 e) :: rat) / of_int (ipow 2 (- e)) = dyadic m e"
    by simp_all
  show ?thesis using fl_frac_rounds [OF q, of "m * ipow 2 e"] unfolding f v .
qed

lemma fsub_rounds: "rounds_to (dyadic m1 e1 - dyadic m2 e2) (fsub (Fin m1 e1) (Fin m2 e2))"
proof -
  obtain m e where "fsub (Fin m1 e1) (Fin m2 e2) = fl_dyadic m e"
    and "dyadic m e = dyadic m1 e1 - dyadic m2 e2"
    using fsub_Fin by blast
  then show ?thesis using fl_dyadic_rounds [of m e] by simp
qed

section \<open>Properties of the answer judge\<close>

text \<open>The two copies of the judge are the same function.\<close>

lemma isAnswerCorrect_server_eq: "isAnswerCorrect_server = isAnswerCorrect"
  by (rule ext)+ (simp add: isAnswerCorrect_server_def isAnswerCorrect_def)

text \<open>
  Claim C3. Both copies of the judge return false when the selected answer is \<open>null\<close>,
  \<open>undefined\<close> or the empty string, whatever the type and the correct answer; when the
  correct answer is not a non-empty array, whatever was selected; and for a question
  type other than the two known ones. They return a truth value for every input: when
  the conversion of the selected answer or of the canonical answer to a string throws,
  the exception is caught and the result is false.
\<close>

theorem isAnswerCorrect_guards:
  "(selected = JNull \<or> selected = JUndefined \<or> selected = JStr [] \<longrightarrow>
      \<not> isAnswerCorrect qType selected expected \<and> \<not> isAnswerCorrect_server qType selected expected) \<and>
   ((\<forall>c cs. expected \<noteq> JArr (c # cs)) \<longrightarrow>
      \<not> isAnswerCorrect qType selected expected \<and> \<not> isAnswerCorrect_server qType selected expected) \<and>
   (qType \<noteq> ''SINGLE_CHOICE'' \<and> qType \<noteq> ''NUMERICAL'' \<longrightarrow>
      \<not> isAnswerCorrect qType selected expected \<and> \<not> isAnswerCorrect_server qType selected expected) \<and>
   (ToString selected = Inl err \<longrightarrow>
      \<not> isAnswerCorrect qType selected expected \<and> \<not> isAnswerCorrect_server qType selected expected) \<and>
   (expected = JArr (c # cs) \<and> ToString c = Inl err \<longrightarrow>
      \<not> isAnswerCorrect qType selected expected \<and> \<not> isAnswerCorrect_server qType selected expected)"
  by (auto simp add: isAnswerCorrect_server_eq isAnswerCorrect_def parseFloat_def
      split: jsval.splits list.splits sum.splits)

text \<open>
  Each guard at an input that reaches it, the last two with an object whose own
  \<open>toString\<close> key makes the conversion throw; and one answer the judge accepts.
\<close>

theorem isAnswerCorrect_guards_witness:
  "\<not> isAnswerCorrect ''NUMERICAL'' JNull (JArr [JNum 10 0]) \<and>
   \<not> isAnswerCorrect ''NUMERICAL'' JUndefined (JArr [JNum 10 0]) \<and>
   \<not> isAnswerCorrect ''SINGLE_CHOICE'' (JStr []) (JArr [JStr []]) \<and>
   \<not> isAnswerCorrect ''SINGLE_CHOICE'' (JStr ''A'') (JStr ''A'') \<and>
   \<not> isAnswerCorrect ''SINGLE_CHOICE'' (JStr ''A'') (JArr []) \<and>
   \<not> isAnswerCorrect ''SINGLE_CHOICE'' (JStr ''A'') JNull \<and>
   \<not> isAnswerCorrect ''MULTIPLE_CHOICE'' (JStr ''A'') (JArr [JStr ''A'']) \<and>
   ToString (JObj [(''toString'', JStr ''A'')]) = Inl TypeError \<and>
   \<not> isAnswerCorrect ''SINGLE_CHOICE'' (JObj [(''toString'', JStr ''A'')]) (JArr [JStr ''A'']) \<and>
   \<not> isAnswerCorrect_server ''NUMERICAL'' (JStr ''1'') (JArr [JObj [(''toString'', JStr ''A'')]]) \<and>
   isAnswerCorrect ''SINGLE_CHOICE'' (JStr ''A'') (JArr [JStr ''A''])"
  using isAnswerCorrect_guards [of JNull "''NUMERICAL''" "JArr [JNum 10 0]"]
    isAnswerCorrect_guards [of JUndefined "''NUMERICAL''" "JArr [JNum 10 0]"]
    isAnswerCorrect_guards [of "JStr []" "''SINGLE_CHOICE''" "JArr [JStr []]"]
    isAnswerCorrect_guards [of "JStr ''A''" "''SINGLE_CHOICE''" "JStr ''A''"]
    isAnswerCorrect_guards [of "JStr ''A''" "''SINGLE_CHOICE''" "JArr []"]
    isAnswerCorrect_guards [of "JStr ''A''" "''SINGLE_CHOICE''" "JNull"]
    isAnswerCorrect_guards [of "JStr ''A''" "''MULTIPLE_CHOICE''" "JArr [JStr ''A'']"]
    isAnswerCorrect_guards [of "JObj [(''toString'', JStr ''A'')]" "''SINGLE_CHOICE''" "JArr [JStr ''A'']" TypeError]
    isAnswerCorrect_guards [of "JStr ''1''" "''NUMERICAL''" "JArr [JObj [(''toString'', JStr ''A'')]]" TypeError
       "JObj [(''toString'', JStr ''A'')]" "[]"]
  by (simp add: isAnswerCorrect_def)

text \<open>The double of the tolerance \<open>0.01\<close>, a little above one hundredth.\<close>

lemma tolerance_double: "fl_dec 1 (- 2) = Fin 5764607523034235 (- 59)"
  by code_simp

text \<open>
  The comparison of the judge in terms of the numbers the doubles stand for: both
  operands are finite, so is their difference as the double subtraction returns it, and
  its absolute value is below the value of the tolerance. An infinite operand gives an
  infinite difference or \<open>NaN\<close>, and neither is below the tolerance.
\<close>

lemma within_tolerance:
  "(\<not> isNaN x \<and> \<not> isNaN y \<and> flt (fabs (fsub y x)) (fl_dec 1 (- 2))) =
   (\<exists>m1 e1 m2 e2 m e. x = Fin m1 e1 \<and> y = Fin m2 e2 \<and>
      fsub (Fin m2 e2) (Fin m1 e1) = Fin m e \<and>
      \<bar>dyadic m e\<bar> < dyadic 5764607523034235 (- 59))"
proof (cases x)
  case NaN
  then show ?thesis by (simp add: isNaN_def tolerance_double)
next
  case PosInf
  then show ?thesis by (cases y) (simp_all add: isNaN_def tolerance_double)
next
  case NegInf
  then show ?thesis by (cases y) (simp_all add: isNaN_def tolerance_double)
next
  case x: (Fin m1 e1)
  show ?thesis
  proof (cases y)
    case NaN
    then show ?thesis by (simp add: isNaN_def tolerance_double)
  next
    case PosInf
    then show ?thesis by (simp add: isNaN_def x tolerance_double)
  next
    case NegInf
    then show ?thesis by (simp add: isNaN_def x tolerance_double)
  next
    case y: (Fin m2 e2)
    have "flt (fabs d) (Fin 5764607523034235 (- 59)) =
      (\<exists>m e. d = Fin m e \<and> \<bar>dyadic m e\<bar> < dyadic 5764607523034235 (- 59))" for d
    proof (cases d)
      case (Fin m e)
      have "fabs (Fin m e) = Fin (\<bar>m\<bar>) e" and "dyadic (\<bar>m\<bar>) e = \<bar>dyadic m e\<bar>"
        using fabs_Fin [of m e] by simp_all
      then show ?thesis unfolding Fin by (simp only: flt_Fin) simp
    qed simp_all
    then show ?thesis
      unfolding x y tolerance_double by (simp add: isNaN_def del: fsub.simps)
  qed
qed

lemma judge_numerical:
  "isAnswerCorrect ''NUMERICAL'' selected expected =
     (selected \<noteq> JNull \<and> selected \<noteq> JUndefined \<and> selected \<noteq> JStr [] \<and>
      (\<exists>c cs m1 e1 m2 e2 m e.
         expected = JArr (c # cs) \<and>
         parseFloat selected = Inr (Fin m1 e1) \<and> parseFloat c = Inr (Fin m2 e2) \<and>
         fsub (Fin m2 e2) (Fin m1 e1) = Fin m e \<and>
         \<bar>dyadic m e\<bar> < dyadic 5764607523034235 (- 59)))"
proof -
  have "isAnswerCorrect ''NUMERICAL'' selected expected =
     (selected \<noteq> JNull \<and> selected \<noteq> JUndefined \<and> selected \<noteq> JStr [] \<and>
      (\<exists>c cs selectedNum correctNum.
         expected = JArr (c # cs) \<and>
         parseFloat selected = Inr selectedNum \<and> parseFloat c = Inr correctNum \<and>
         \<not> isNaN selectedNum \<and> \<not> isNaN correctNum \<and>
         flt (fabs (fsub correctNum selectedNum)) (fl_dec 1 (- 2))))"
    by (auto simp add: isAnswerCorrect_def split: jsval.splits list.splits sum.splits)
  also have "\<dots> =
     (selected \<noteq> JNull \<and> selected \<noteq> JUndefined \<and> selected \<noteq> JStr [] \<and>
      (\<exists>c cs m1 e1 m2 e2 m e.
         expected = JArr (c # cs) \<and>
         parseFloat selected = Inr (Fin m1 e1) \<and> parseFloat c = Inr (Fin m2 e2) \<and>
         fsub (Fin m2 e2) (Fin m1 e1) = Fin m e \<and>
         \<bar>dyadic m e\<bar> < dyadic 5764607523034235 (- 59)))"
    unfolding within_tolerance by (auto simp del: fsub.simps)
  finally show ?thesis .
qed

text \<open>
  The judge computed on numbers and strings against \<open>[10]\<close>, and on pairs of a selected
  and a correct answer: answers on both sides of the correct value and of the
  tolerance, exponents, signs, white space, trailing text, and texts that are no number.
\<close>

lemma numerical_numbers:
  "map (\<lambda>v. isAnswerCorrect ''NUMERICAL'' v (JArr [JNum 10 0]))
     [JNum 9995 (- 3), JNum 998 (- 2), JNum 10005 (- 3), JNum 1002 (- 2), JNum 105 (- 1),
      JNum 999 (- 2), JNum 1001 (- 2)] =
     [True, False, True, False, False, True, True]"
  by code_simp

lemma numerical_strings:
  "map (\<lambda>v. isAnswerCorrect ''NUMERICAL'' v (JArr [JNum 10 0]))
     [JStr ''9.995'', JStr ''1e1'', JStr ''1E1'', JStr ''100e-1'', JStr ''1e+1'', JStr ''1e2'',
      JStr '' 10'', JStr ''+10'', JStr ''-10'', JStr ''10.'', JStr ''.1e2'', JStr ''10 apples'',
      JStr ''abc'', JStr ''1e'', JStr ''0x10'', JStr ''Infinity'', JStr ''1e400'',
      JArr [JStr ''10''], JBool True, JObj []] =
     [True, True, True, True, True, False,
      True, True, False, True, True, True,
      False, False, False, False, False,
      True, False, False]"
  by code_simp

lemma numerical_pairs:
  "map (\<lambda>p. isAnswerCorrect ''NUMERICAL'' (fst p) (JArr [snd p]))
     [(JNum 99 (- 2), JNum 1 0), (JNum 101 (- 2), JNum 1 0), (JStr ''-10'', JNum (- 10) 0),
      (JStr ''.5'', JNum 5 (- 1)), (JNum 10 0, JStr ''10''), (JNum 10 0, JStr ''ten''),
      (JStr ''Infinity'', JStr ''Infinity''), (JStr ''-Infinity'', JNum 0 0),
      (JNum 1 21, JStr ''1000000000000000000000''), (JNum 1 (- 7), JNum 0 0),
      (JNum 3 (- 19), JNum 1 (- 2)), (JNum 0 0, JNum 1 (- 2)), (JNum 0 0, JNum 99 (- 4)),
      (JNum (- 5) (- 3), JNum 5 (- 3)), (JNum (- 4) (- 3), JNum 5 (- 3))] =
     [False, False, True,
      True, True, False,
      False, False,
      True, True,
      False, False, True,
      False, True]"
  by code_simp

text \<open>The literal that \<open>parseFloat\<close> reads at the start of a text, as mantissa and exponent.\<close>

lemma literal_examples:
  "map unsigned_literal [''9.995'', ''1e1'', ''1E1'', ''100e-1'', ''1e+1'', ''10 apples'', ''.1e2'',
      ''10.'', ''1e'', ''abc'', ''.''] =
     [Some (9995, - 3), Some (1, 1), Some (1, 1), Some (100, - 1), Some (1, 1), Some (10, 0), Some (1, 1),
      Some (10, 0), Some (1, 0), None, None]"
  by code_simp

text \<open>The doubles that the numbers of the examples are read as, and their differences.\<close>

lemma parsed_examples:
  "parseFloat (JNum 9995 (- 3)) = Inr (Fin 5626684784446013 (- 49)) \<and>
   parseFloat (JNum 998 (- 2)) = Inr (Fin 5618240535144694 (- 49)) \<and>
   parseFloat (JNum 999 (- 2)) = Inr (Fin 5623870034678907 (- 49)) \<and>
   parseFloat (JNum 10 0) = Inr (Fin 5629499534213120 (- 49)) \<and>
   parseFloat (JNum 3 (- 19)) = Inr (Fin 6230756230241793 (- 114)) \<and>
   parseFloat (JNum 1 (- 2)) = Inr (Fin 5764607523034235 (- 59))"
  by code_simp

lemma difference_examples:
  "fsub (Fin 5629499534213120 (- 49)) (Fin 5626684784446013 (- 49)) = Fin 5764607523035136 (- 60) \<and>
   fsub (Fin 5629499534213120 (- 49)) (Fin 5618240535144694 (- 49)) = Fin 5764607523034112 (- 58) \<and>
   fsub (Fin 5629499534213120 (- 49)) (Fin 5623870034678907 (- 49)) = Fin 5764607523034112 (- 59) \<and>
   fsub (Fin 5764607523034235 (- 59)) (Fin 6230756230241793 (- 114)) = Fin 5764607523034235 (- 59)"
  by code_simp

text \<open>
  Claim C4, as stated, fails when the difference is taken of the numbers themselves.
  Selected \<open>3e-19\<close> against \<open>[0.01]\<close>: both are read as doubles, and the difference is
  below one hundredth, whether taken of the two decimals or of the two doubles they are
  read as; but the double subtraction rounds it up to the double \<open>0.01\<close>, which is not
  below itself, and both copies of the judge answer false. Selected \<open>9.99\<close> against
  \<open>[10]\<close>: the difference of the decimals is one hundredth, not below it; but \<open>9.99\<close> is
  read as a double a little above, and both copies of the judge answer true.
\<close>

theorem isAnswerCorrect_numerical_counterexample:
  "\<not> isAnswerCorrect ''NUMERICAL'' (JNum 3 (- 19)) (JArr [JNum 1 (- 2)]) \<and>
   \<not> isAnswerCorrect_server ''NUMERICAL'' (JNum 3 (- 19)) (JArr [JNum 1 (- 2)]) \<and>
   parseFloat (JNum 3 (- 19)) = Inr (Fin 6230756230241793 (- 114)) \<and>
   parseFloat (JNum 1 (- 2)) = Inr (Fin 5764607523034235 (- 59)) \<and>
   \<bar>decimal 1 (- 2) - decimal 3 (- 19)\<bar> < 1 / 100 \<and>
   \<bar>dyadic 5764607523034235 (- 59) - dyadic 6230756230241793 (- 114)\<bar> < 1 / 100 \<and>
   isAnswerCorrect ''NUMERICAL'' (JNum 999 (- 2)) (JArr [JNum 10 0]) \<and>
   isAnswerCorrect_server ''NUMERICAL'' (JNum 999 (- 2)) (JArr [JNum 10 0]) \<and>
   \<not> \<bar>decimal 10 0 - decimal 999 (- 2)\<bar> < 1 / 100"
proof -
  have a: "\<not> isAnswerCorrect ''NUMERICAL'' (JNum 3 (- 19)) (JArr [JNum 1 (- 2)])"
    using numerical_pairs by simp
  have b: "isAnswerCorrect ''NUMERICAL'' (JNum 999 (- 2)) (JArr [JNum 10 0])"
    using numerical_numbers by simp
  have c: "\<bar>decimal 1 (- 2) - decimal 3 (- 19)\<bar> < 1 / 100"
    "\<bar>dyadic 5764607523034235 (- 59) - dyadic 6230756230241793 (- 114)\<bar> < 1 / 100"
    "\<not> \<bar>decimal 10 0 - decimal 999 (- 2)\<bar> < 1 / 100"
    by (simp_all add: decimal_def dyadic_def)
  show ?thesis
    using a b c parsed_examples by (simp add: isAnswerCorrect_server_eq)
qed

text \<open>
  Claim C4, amended. For a \<open>NUMERICAL\<close> question the judge answers true exactly when an
  answer was selected, the correct answer is a non-empty array, \<open>parseFloat\<close> reads the
  selected answer and the array's first element as finite doubles, the double
  subtraction of the two is finite, and the absolute value of that double is strictly
  below the double nearest to \<open>0.01\<close>. The server's copy answers the same. The double
  subtraction returns the exact difference of the two doubles rounded to the nearest
  double, ties to even; the tolerance is one hundredth rounded so, and a decimal
  literal is read as its value rounded so. \<open>parseFloat\<close> reads the longest decimal
  literal a text starts with, with its exponent part, and ignores what follows.
  Selected 9.995 against \<open>[10]\<close> is correct and selected 9.98 is not; 10.005 is correct
  and 10.02 and 10.5 are not; 9.99 and 10.01 are correct as well, 0.99 and 1.01 against
  \<open>[1]\<close> are not.
\<close>

theorem isAnswerCorrect_numerical:
  "isAnswerCorrect ''NUMERICAL'' selected expected =
     (selected \<noteq> JNull \<and> selected \<noteq> JUndefined \<and> selected \<noteq> JStr [] \<and>
      (\<exists>c cs m1 e1 m2 e2 m e.
         expected = JArr (c # cs) \<and>
         parseFloat selected = Inr (Fin m1 e1) \<and> parseFloat c = Inr (Fin m2 e2) \<and>
         fsub (Fin m2 e2) (Fin m1 e1) = Fin m e \<and>
         \<bar>dyadic m e\<bar> < dyadic 5764607523034235 (- 59))) \<and>
   isAnswerCorrect_server ''NUMERICAL'' selected expected =
     isAnswerCorrect ''NUMERICAL'' selected expected \<and>
   rounds_to (dyadic a2 b2 - dyadic a1 b1) (fsub (Fin a2 b2) (Fin a1 b1)) \<and>
   rounds_to (1 / 100) (Fin 5764607523034235 (- 59)) \<and>
   rounds_to (decimal k j) (fl_dec k j) \<and>
   isAnswerCorrect ''NUMERICAL'' (JNum 9995 (- 3)) (JArr [JNum 10 0]) \<and>
   \<not> isAnswerCorrect ''NUMERICAL'' (JNum 998 (- 2)) (JArr [JNum 10 0]) \<and>
   map unsigned_literal [''9.995'', ''1e1'', ''1E1'', ''100e-1'', ''1e+1'', ''10 apples'', ''.1e2'',
      ''10.'', ''1e'', ''abc'', ''.''] =
     [Some (9995, - 3), Some (1, 1), Some (1, 1), Some (100, - 1), Some (1, 1), Some (10, 0), Some (1, 1),
      Some (10, 0), Some (1, 0), None, None] \<and>
   map (\<lambda>v. isAnswerCorrect ''NUMERICAL'' v (JArr [JNum 10 0]))
     [JNum 9995 (- 3), JNum 998 (- 2), JNum 10005 (- 3), JNum 1002 (- 2), JNum 105 (- 1),
      JNum 999 (- 2), JNum 1001 (- 2)] =
     [True, False, True, False, False, True, True] \<and>
   map (\<lambda>v. isAnswerCorrect ''NUMERICAL'' v (JArr [JNum 10 0]))
     [JStr ''9.995'', JStr ''1e1'', JStr ''1E1'', JStr ''100e-1'', JStr ''1e+1'', JStr ''1e2'',
      JStr '' 10'', JStr ''+10'', JStr ''-10'', JStr ''10.'', JStr ''.1e2'', JStr ''10 apples'',
      JStr ''abc'', JStr ''1e'', JStr ''0x10'', JStr ''Infinity'', JStr ''1e400'',
      JArr [JStr ''10''], JBool True, JObj []] =
     [True, True, True, True, True, False,
      True, True, False, True, True, True,
      False, False, False, False, False,
      True, False, False] \<and>
   map (\<lambda>p. isAnswerCorrect ''NUMERICAL'' (fst p) (JArr [snd p]))
     [(JNum 99 (- 2), JNum 1 0), (JNum 101 (- 2), JNum 1 0), (JStr ''-10'', JNum (- 10) 0),
      (JStr ''.5'', JNum 5 (- 1)), (JNum 10 0, JStr ''10''), (JNum 10 0, JStr ''ten''),
      (JStr ''Infinity'', JStr ''Infinity''), (JStr ''-Infinity'', JNum 0 0),
      (JNum 1 21, JStr ''1000000000000000000000''), (JNum 1 (- 7), JNum 0 0),
      (JNum 3 (- 19), JNum 1 (- 2)), (JNum 0 0, JNum 1 (- 2)), (JNum 0 0, JNum 99 (- 4)),
      (JNum (- 5) (- 3), JNum 5 (- 3)), (JNum (- 4) (- 3), JNum 5 (- 3))] =
     [False, False, True,
      True, True, False,
      False, False,
      True, True,
      False, False, True,
      False, True]"
proof -
  have "rounds_to (decimal 1 (- 2)) (fl_dec 1 (- 2))" by (rule fl_dec_rounds)
  moreover have "decimal 1 (- 2) = 1 / 100" by (simp add: decimal_def)
  ultimately have t: "rounds_to (1 / 100) (Fin 5764607523034235 (- 59))"
    by (simp only: tolerance_double)
  have a: "isAnswerCorrect ''NUMERICAL'' (JNum 9995 (- 3)) (JArr [JNum 10 0])"
    and b: "\<not> isAnswerCorrect ''NUMERICAL'' (JNum 998 (- 2)) (JArr [JNum 10 0])"
    using numerical_numbers by simp_all
  show ?thesis
    by (intro conjI judge_numerical fsub_rounds t fl_dec_rounds a b literal_examples
        numerical_numbers numerical_strings numerical_pairs)
      (simp add: isAnswerCorrect_server_eq)
qed

text \<open>
  At selected 9.995 against \<open>[10]\<close>: the judge answers true, and false at 9.98. The
  double of the tolerance is at least as near to one hundredth as the double below it,
  and the double difference of \<open>10\<close> and \<open>9.995\<close> is at least as near to their exact
  difference as the double above it.
\<close>

theorem isAnswerCorrect_numerical_witness:
  "isAnswerCorrect ''NUMERICAL'' (JNum 9995 (- 3)) (JArr [JNum 10 0]) \<and>
   \<not> isAnswerCorrect ''NUMERICAL'' (JNum 998 (- 2)) (JArr [JNum 10 0]) \<and>
   is_double 5764607523034234 (- 59) \<and>
   \<bar>dyadic 5764607523034235 (- 59) - 1 / 100\<bar> \<le> \<bar>dyadic 5764607523034234 (- 59) - 1 / 100\<bar> \<and>
   is_double 5764607523035137 (- 60) \<and>
   \<bar>dyadic 5764607523035136 (- 60) - (dyadic 5629499534213120 (- 49) - dyadic 5626684784446013 (- 49))\<bar>
     \<le> \<bar>dyadic 5764607523035137 (- 60) - (dyadic 5629499534213120 (- 49) - dyadic 5626684784446013 (- 49))\<bar>"
proof -
  note t = isAnswerCorrect_numerical [where selected = "JNum 9995 (- 3)" and expected = "JArr [JNum 10 0]"
      and ?a1.0 = 5626684784446013 and ?b1.0 = "- 49" and ?a2.0 = 5629499534213120 and ?b2.0 = "- 49"
      and k = 1 and j = "- 2"]
  have d: "is_double 5764607523034234 (- 59)" "is_double 5764607523035137 (- 60)"
    by (simp_all add: is_double_def)
  from t have ex: "isAnswerCorrect ''NUMERICAL'' (JNum 9995 (- 3)) (JArr [JNum 10 0])"
    by (elim conjE)
  from t have ex': "\<not> isAnswerCorrect ''NUMERICAL'' (JNum 998 (- 2)) (JArr [JNum 10 0])"
    by (elim conjE)
  from t have "rounds_to (1 / 100) (Fin 5764607523034235 (- 59))"
    by (elim conjE)
  then have n1: "\<bar>dyadic 5764607523034235 (- 59) - 1 / 100\<bar> \<le> \<bar>dyadic 5764607523034234 (- 59) - 1 / 100\<bar>"
    using d(1) by (simp add: nearest_even_def)
  from t have "rounds_to (dyadic 5629499534213120 (- 49) - dyadic 5626684784446013 (- 49))
      (fsub (Fin 5629499534213120 (- 49)) (Fin 5626684784446013 (- 49)))"
    by (elim conjE)
  then have "rounds_to (dyadic 5629499534213120 (- 49) - dyadic 5626684784446013 (- 49))
      (Fin 5764607523035136 (- 60))"
    using difference_examples by (simp del: fsub.simps rounds_to.simps)
  then have n2: "\<bar>dyadic 5764607523035136 (- 60) - (dyadic 5629499534213120 (- 49) - dyadic 5626684784446013 (- 49))\<bar>
     \<le> \<bar>dyadic 5764607523035137 (- 60) - (dyadic 5629499534213120 (- 49) - dyadic 5626684784446013 (- 49))\<bar>"
    using d(2) by (simp add: nearest_even_def)
  show ?thesis using ex ex' d n1 n2 by simp
qed

section \<open>Properties of the two scoring paths\<close>

subsection \<open>The subject table\<close>

lemma map_fst_modify_subject: "map fst (modify_subject sub f stats) = map fst stats"
  by (induction stats) (simp_all add: modify_subject_def)

lemma ensure_subject_keys:
  "map fst (ensure_subject sub stats) =
     (if sub \<in> set (map fst stats) then map fst stats else map fst stats @ [sub])"
  by (auto simp add: ensure_subject_def map_of_eq_None_iff)

lemma ensure_subject_distinct:
  "distinct (map fst stats) \<Longrightarrow> distinct (map fst (ensure_subject sub stats))"
  by (simp add: ensure_subject_keys)

lemma ensure_subject_member: "sub \<in> set (map fst (ensure_subject sub stats))"
  by (simp add: ensure_subject_keys)

lemma ensure_subject_sum:
  assumes "g \<lparr>correct = 0, incorrect = 0, unattempted = 0, score = 0\<rparr> = (0::int)"
  shows "sum_list (map (\<lambda>entry. g (snd entry)) (ensure_subject sub stats)) =
         sum_list (map (\<lambda>entry. g (snd entry)) stats)"
  using assms by (simp add: ensure_subject_def)

text \<open>Changing the one entry of a subject moves a column's sum by what it adds there.\<close>

lemma modify_subject_sum:
  assumes "distinct (map fst stats)" and "sub \<in> set (map fst stats)"
    and "\<And>x. g (f x) = g x + (d::int)"
  shows "sum_list (map (\<lambda>entry. g (snd entry)) (modify_subject sub f stats)) =
         sum_list (map (\<lambda>entry. g (snd entry)) stats) + d"
  using assms(1,2)
proof (induction stats)
  case Nil
  then show ?case by simp
next
  case (Cons entry stats)
  show ?case
  proof (cases "fst entry = sub")
    case True
    with Cons.prems have "sub \<notin> set (map fst stats)" by auto
    then have "modify_subject sub f stats = stats"
      by (induction stats) (auto simp add: modify_subject_def)
    with True show ?thesis
      by (simp add: modify_subject_def assms(3))
  next
    case False
    with Cons show ?thesis
      by (simp add: modify_subject_def)
  qed
qed

subsection \<open>The loop of the report\<close>

lemma count_status_questions: "report_questions (count_status st sub r) = report_questions r"
  by (cases st) (simp_all add: count_status_def)

lemma count_status_totals:
  "totalCorrect (count_status st sub r) = totalCorrect r + (if st = CORRECT then 1 else 0) \<and>
   totalIncorrect (count_status st sub r) = totalIncorrect r + (if st = INCORRECT then 1 else 0)"
  by (cases st) (simp_all add: count_status_def)

lemma count_status_counters_match:
  assumes "counters_match r" and "sub \<in> set (map fst (subjectStats r))"
  shows "counters_match ((count_status st sub r)\<lparr>report_questions := report_questions r @ [qa]\<rparr>)"
proof -
  from assms(1) have d: "distinct (map fst (subjectStats r))"
    by (simp add: counters_match_def)
  show ?thesis
    using assms(1)
    by (cases st)
      (simp_all add: counters_match_def count_status_def map_fst_modify_subject
        modify_subject_sum [OF d assms(2), where d = 1]
        modify_subject_sum [OF d assms(2), where d = 0])
qed

lemma report_step_counters_match:
  assumes "counters_match r"
  shows "counters_match (report_step answerMap r link)"
proof (cases "\<exists>q rest. Questions link = Rows (Some q # rest)")
  case True
  then obtain q rest where q: "Questions link = Rows (Some q # rest)" by blast
  let ?r1 = "r\<lparr>subjectStats := ensure_subject (subject_key q) (subjectStats r)\<rparr>"
  have "counters_match ?r1"
    using assms by (simp add: counters_match_def ensure_subject_distinct ensure_subject_sum)
  moreover have "subject_key q \<in> set (map fst (subjectStats ?r1))"
    using ensure_subject_member [of "subject_key q" "subjectStats r"] by simp
  ultimately have "counters_match ((count_status (classify q (get_or_null answerMap (question_id q)))
      (subject_key q) ?r1)\<lparr>report_questions := report_questions ?r1 @
         [\<lparr>qa_question_id = question_id q,
           qa_question_number = question_number link,
           qa_question_text = question_text q,
           qa_subject = subject q,
           qa_correct_answer = correct_answer q,
           qa_solution_text = solution_text q,
           qa_selected_answer = get_or_null answerMap (question_id q),
           qa_status = classify q (get_or_null answerMap (question_id q))\<rparr>]\<rparr>)"
    by (rule count_status_counters_match)
  then show ?thesis
    by (simp add: report_step_def q Let_def count_status_questions)
next
  case False
  then have "report_step answerMap r link = r"
    by (simp add: report_step_def split: joined.splits list.splits option.splits)
  with assms show ?thesis by simp
qed

lemma foldl_report_step_counters_match:
  "counters_match r \<Longrightarrow> counters_match (foldl (report_step answerMap) r links)"
  by (induction links arbitrary: r) (simp_all add: report_step_counters_match)

lemma sum_list_scores:
  "sum_list (map (\<lambda>entry. correct (snd entry) * 4 - incorrect (snd entry)) stats) =
   sum_list (map (\<lambda>entry. correct (snd entry)) stats) * 4 -
   sum_list (map (\<lambda>entry. incorrect (snd entry)) stats)"
  by (induction stats) (simp_all add: algebra_simps)

text \<open>
  Claim C2. In every report, the total score is four times the total of correct answers
  less the total of incorrect ones, every subject's score is four times its correct
  count less its incorrect count, the subjects are listed once each, and the scores of
  the subjects add up to the total score. The unattempted counts enter no score; the
  three totals together count the questions listed.
\<close>

theorem generateReport_scores:
  "totalScore (generateReport name userAnswers questionLinks) =
     totalCorrect (generateReport name userAnswers questionLinks) * 4 -
     totalIncorrect (generateReport name userAnswers questionLinks) * 1 \<and>
   (\<forall>entry \<in> set (subjectStats (generateReport name userAnswers questionLinks)).
      score (snd entry) = correct (snd entry) * 4 - incorrect (snd entry) * 1) \<and>
   distinct (map fst (subjectStats (generateReport name userAnswers questionLinks))) \<and>
   sum_list (map (\<lambda>entry. score (snd entry)) (subjectStats (generateReport name userAnswers questionLinks))) =
     totalScore (generateReport name userAnswers questionLinks) \<and>
   totalCorrect (generateReport name userAnswers questionLinks) + totalIncorrect (generateReport name userAnswers questionLinks) +
     totalUnattempted (generateReport name userAnswers questionLinks) =
     int (length (report_questions (generateReport name userAnswers questionLinks)))"
proof -
  let ?r = "foldl (report_step (build_answerMap userAnswers)) (newReportData name) questionLinks"
  have "counters_match (newReportData name)"
    by (simp add: counters_match_def newReportData_def)
  then have inv: "counters_match ?r"
    by (rule foldl_report_step_counters_match)
  have g: "generateReport name userAnswers questionLinks = calculate_scores ?r"
    by (simp add: generateReport_def)
  show ?thesis
    unfolding g using inv
    by (simp add: calculate_scores_def counters_match_def o_def sum_list_scores)
qed

text \<open>The report of the sample attempt: one right, one wrong, one left out, 4 - 1 + 0 = 3.\<close>

lemma scenario_report:
  "generateReport ''Mock'' scenario_answers scenario_links =
     \<lparr>testName = ''Mock'', totalScore = 3, totalCorrect = 1, totalIncorrect = 1, totalUnattempted = 1,
      subjectStats =
        [(''PHYSICS'', \<lparr>correct = 1, incorrect = 1, unattempted = 0, score = 3\<rparr>),
         (''UNCATEGORIZED'', \<lparr>correct = 0, incorrect = 0, unattempted = 1, score = 0\<rparr>)],
      report_questions =
        [\<lparr>qa_question_id = ''q1'', qa_question_number = 1, qa_question_text = None,
          qa_subject = Some ''Physics'', qa_correct_answer = JArr [JStr ''A''],
          qa_solution_text = None, qa_selected_answer = JStr ''A'', qa_status = CORRECT\<rparr>,
         \<lparr>qa_question_id = ''q2'', qa_question_number = 1, qa_question_text = None,
          qa_subject = Some ''physics'', qa_correct_answer = JArr [JStr ''B''],
          qa_solution_text = None, qa_selected_answer = JStr ''C'', qa_status = INCORRECT\<rparr>,
         \<lparr>qa_question_id = ''q3'', qa_question_number = 1, qa_question_text = None,
          qa_subject = None, qa_correct_answer = JArr [JNum 10 0],
          qa_solution_text = None, qa_selected_answer = JNull, qa_status = UNATTEMPTED\<rparr>]\<rparr>"
  by code_simp

theorem generateReport_scores_witness:
  "totalScore (generateReport ''Mock'' scenario_answers scenario_links) = 3 \<and>
   totalCorrect (generateReport ''Mock'' scenario_answers scenario_links) = 1 \<and>
   totalIncorrect (generateReport ''Mock'' scenario_answers scenario_links) = 1 \<and>
   totalUnattempted (generateReport ''Mock'' scenario_answers scenario_links) = 1 \<and>
   map (\<lambda>entry. (fst entry, score (snd entry)))
     (subjectStats (generateReport ''Mock'' scenario_answers scenario_links)) =
     [(''PHYSICS'', 3), (''UNCATEGORIZED'', 0)] \<and>
   sum_list (map (\<lambda>entry. score (snd entry))
     (subjectStats (generateReport ''Mock'' scenario_answers scenario_links))) = 3"
  using generateReport_scores [of "''Mock''" scenario_answers scenario_links]
  by (simp add: scenario_report)

subsection \<open>Links without a row\<close>

lemma foldl_filter_skip:
  assumes "\<And>a x. \<not> P x \<Longrightarrow> f a x = a"
  shows "foldl f a (filter P xs) = foldl f a xs"
  by (induction xs arbitrary: a) (simp_all add: assms)

lemma unresolved_report_step: "unresolved link \<Longrightarrow> report_step answerMap r link = r"
  by (simp add: unresolved_def report_step_def split: joined.splits list.splits option.splits)

lemma unresolved_server_step: "unresolved link \<Longrightarrow> server_step answerMap counters link = counters"
  by (simp add: unresolved_def server_step_def resolve_server_def
      split: joined.splits list.splits option.splits)

text \<open>
  Claim C9. Both scoring paths skip a link whose joined row cannot be resolved: the
  whole report (its totals, its subject table with the scores, its question list) and
  the server's score are what they are for the links that remain when every such link
  is taken out of the list. So such a link raises no counter, adds to no score and is
  not listed; it is not counted as unattempted.
\<close>

theorem unresolved_links_skipped:
  "generateReport name userAnswers questionLinks =
     generateReport name userAnswers (filter (\<lambda>link. \<not> unresolved link) questionLinks) \<and>
   calculate_score userAnswers questionLinks =
     calculate_score userAnswers (filter (\<lambda>link. \<not> unresolved link) questionLinks)"
proof -
  have "foldl (report_step m) r (filter (\<lambda>link. \<not> unresolved link) questionLinks) =
        foldl (report_step m) r questionLinks" for m r
    by (rule foldl_filter_skip) (simp add: unresolved_report_step)
  moreover have "foldl (server_step m) c (filter (\<lambda>link. \<not> unresolved link) questionLinks) =
        foldl (server_step m) c questionLinks" for m c
    by (rule foldl_filter_skip) (simp add: unresolved_server_step)
  ultimately show ?thesis
    by (simp add: generateReport_def calculate_score_def)
qed

subsection \<open>Falsy stored answers\<close>

text \<open>Both loops read the answer map only through the lookup that ends in \<open>|| null\<close>.\<close>

lemma get_or_null_cong:
  assumes "\<And>k. get_or_null m k = get_or_null m' k"
  shows "report_step m = report_step m'" and "server_step m = server_step m'"
  by (rule ext, rule ext, simp add: report_step_def assms
        split: joined.splits list.splits option.splits,
      rule ext, rule ext, simp add: server_step_def assms
        split: joined.splits list.splits option.splits)

lemma build_answerMap_append:
  "build_answerMap (userAnswers @ [(k, v)]) = (build_answerMap userAnswers)(k \<mapsto> v)"
  by (simp add: build_answerMap_def)

lemma get_or_null_falsy:
  assumes "m k = Some v" and "\<not> truthy v"
  shows "get_or_null (m(k \<mapsto> JNull)) k' = get_or_null m k'"
  using assms by (simp add: get_or_null_def)

lemma get_or_null_not_empty: "get_or_null m k \<noteq> JStr []"
  by (auto simp add: get_or_null_def split: option.splits)

lemma report_step_questions:
  assumes "list_all (entry_ok m) (report_questions r)"
  shows "list_all (entry_ok m) (report_questions (report_step m r link))"
  using assms
  by (simp add: report_step_def Let_def classify_def entry_ok_def count_status_questions
      split: joined.splits list.splits option.splits)

lemma foldl_report_step_questions:
  "list_all (entry_ok m) (report_questions r) \<Longrightarrow>
   list_all (entry_ok m) (report_questions (foldl (report_step m) r links))"
  by (induction links arbitrary: r) (simp_all add: report_step_questions)

lemma falsy_values: "\<not> truthy (JStr []) \<and> \<not> truthy (JNum 0 0) \<and> \<not> truthy (JBool False)"
  by (simp add: fl_dec_def fl_frac_def)

text \<open>
  A falsy stored answer is read as \<open>null\<close>: both paths give what they give when \<open>null\<close>
  is stored for the question instead, and the report shows its entries unattempted.
\<close>

lemma falsy_answer_as_null:
  assumes "build_answerMap userAnswers k = Some v" and "\<not> truthy v"
  shows "generateReport name userAnswers questionLinks =
           generateReport name (userAnswers @ [(k, JNull)]) questionLinks \<and>
         calculate_score userAnswers questionLinks =
           calculate_score (userAnswers @ [(k, JNull)]) questionLinks \<and>
         (\<forall>qa \<in> set (report_questions (generateReport name userAnswers questionLinks)).
            qa_question_id qa = k \<longrightarrow> qa_selected_answer qa = JNull \<and> qa_status qa = UNATTEMPTED) \<and>
         \<not> truthy (JStr []) \<and> \<not> truthy (JNum 0 0) \<and> \<not> truthy (JBool False)"
proof -
  let ?m = "build_answerMap userAnswers"
  have eq: "get_or_null (?m(k \<mapsto> JNull)) k' = get_or_null ?m k'" for k'
    using assms by (rule get_or_null_falsy)
  have r: "report_step (?m(k \<mapsto> JNull)) = report_step ?m"
    and s: "server_step (?m(k \<mapsto> JNull)) = server_step ?m"
    using get_or_null_cong [of "?m(k \<mapsto> JNull)" ?m, OF eq] by simp_all
  have null: "get_or_null ?m k = JNull"
    using assms by (simp add: get_or_null_def)
  have "list_all (entry_ok ?m) (report_questions (foldl (report_step ?m) (newReportData name) questionLinks))"
    by (rule foldl_report_step_questions) (simp add: newReportData_def)
  then have "\<forall>qa \<in> set (report_questions (generateReport name userAnswers questionLinks)).
            qa_question_id qa = k \<longrightarrow> qa_selected_answer qa = JNull \<and> qa_status qa = UNATTEMPTED"
    using null by (auto simp add: generateReport_def calculate_scores_def list_all_iff entry_ok_def)
  then show ?thesis
    using falsy_values
    by (simp add: generateReport_def calculate_score_def build_answerMap_append r s)
qed

text \<open>What a round of the report's loop does to the totals, to a subject's counts and to the list.\<close>

lemma map_of_modify_subject:
  "map_of (modify_subject s g stats) x = (if x = s then map_option g (map_of stats s) else map_of stats x)"
  by (induction stats) (auto simp add: modify_subject_def)

lemma map_of_ensure_subject:
  "map_of (ensure_subject s stats) x =
     (if x = s \<and> map_of stats s = None
      then Some \<lparr>correct = 0, incorrect = 0, unattempted = 0, score = 0\<rparr>
      else map_of stats x)"
  by (auto simp add: ensure_subject_def map_add_def split: option.splits)

lemma report_step_row:
  assumes "Questions link = Rows (Some q # rest)"
  shows "totalCorrect (report_step m r link) =
           totalCorrect r + (if classify q (get_or_null m (question_id q)) = CORRECT then 1 else 0)"
    and "totalIncorrect (report_step m r link) =
           totalIncorrect r + (if classify q (get_or_null m (question_id q)) = INCORRECT then 1 else 0)"
    and "totalUnattempted (report_step m r link) =
           totalUnattempted r + (if classify q (get_or_null m (question_id q)) = UNATTEMPTED then 1 else 0)"
    and "subject_stat correct (report_step m r link) sub =
           subject_stat correct r sub +
           (if sub = subject_key q \<and> classify q (get_or_null m (question_id q)) = CORRECT then 1 else 0)"
    and "subject_stat incorrect (report_step m r link) sub =
           subject_stat incorrect r sub +
           (if sub = subject_key q \<and> classify q (get_or_null m (question_id q)) = INCORRECT then 1 else 0)"
    and "entries_of k (report_step m r link) = entries_of k r + (if question_id q = k then 1 else 0)"
  by (cases "classify q (get_or_null m (question_id q))";
      simp add: report_step_def assms Let_def count_status_def subject_stat_def entries_of_def
        map_of_modify_subject map_of_ensure_subject split: option.splits)+

lemma report_step_no_row:
  assumes "\<forall>q rest. Questions link \<noteq> Rows (Some q # rest)"
  shows "report_step m r link = r"
  using assms by (simp add: report_step_def split: joined.splits list.splits option.splits)


lemma classify_null: "classify q JNull = UNATTEMPTED"
  by (simp add: classify_def)

lemma report_step_own_link:
  assumes "get_or_null m k = JNull" and "link_of_question k link"
  shows "same_marks k (report_step m r link) r"
proof (cases "\<exists>q rest. Questions link = Rows (Some q # rest)")
  case True
  then obtain q rest where q: "Questions link = Rows (Some q # rest)" by blast
  with assms(2) have "question_id q = k"
    by (simp add: link_of_question_def resolve_server_def)
  with assms(1) have "classify q (get_or_null m (question_id q)) = UNATTEMPTED"
    by (simp add: classify_null)
  then show ?thesis
    using \<open>question_id q = k\<close>
    by (simp add: same_marks_def report_step_row [OF q])
next
  case False
  then have "report_step m r link = r"
    by (simp add: report_step_no_row)
  then show ?thesis by (simp add: same_marks_def)
qed

lemma report_step_other_link:
  assumes "same_marks k r r'" and "\<not> link_of_question k link"
  shows "same_marks k (report_step m r link) (report_step m r' link)"
proof (cases "\<exists>q rest. Questions link = Rows (Some q # rest)")
  case True
  then obtain q rest where q: "Questions link = Rows (Some q # rest)" by blast
  with assms(2) have "question_id q \<noteq> k"
    by (simp add: link_of_question_def resolve_server_def)
  then show ?thesis
    using assms(1) by (simp add: same_marks_def report_step_row [OF q])
next
  case False
  then have "report_step m r link = r" and "report_step m r' link = r'"
    by (simp_all add: report_step_no_row)
  with assms(1) show ?thesis by simp
qed

lemma same_marks_trans_left:
  "same_marks k r1 r \<Longrightarrow> same_marks k r r' \<Longrightarrow> same_marks k r1 r'"
  by (simp add: same_marks_def)

lemma foldl_report_step_same_marks:
  assumes "get_or_null m k = JNull" and "same_marks k r r'"
  shows "same_marks k (foldl (report_step m) r links)
           (foldl (report_step m) r' (filter (\<lambda>link. \<not> link_of_question k link) links))"
  using assms(2)
proof (induction links arbitrary: r r')
  case Nil
  then show ?case by simp
next
  case (Cons link links)
  show ?case
  proof (cases "link_of_question k link")
    case True
    have "same_marks k (report_step m r link) r'"
      using report_step_own_link [OF assms(1) True, of r] Cons.prems
      by (rule same_marks_trans_left)
    from Cons.IH [OF this] True show ?thesis by simp
  next
    case False
    have "same_marks k (report_step m r link) (report_step m r' link)"
      using Cons.prems False by (rule report_step_other_link)
    from Cons.IH [OF this] False show ?thesis by simp
  qed
qed

lemma report_step_entries_other:
  assumes "\<not> link_of_question k link"
  shows "entries_of k (report_step m r link) = entries_of k r"
proof (cases "\<exists>q rest. Questions link = Rows (Some q # rest)")
  case True
  then obtain q rest where q: "Questions link = Rows (Some q # rest)" by blast
  with assms have "question_id q \<noteq> k"
    by (simp add: link_of_question_def resolve_server_def)
  then show ?thesis by (simp add: report_step_row [OF q])
next
  case False
  then show ?thesis by (simp add: report_step_no_row)
qed

lemma foldl_report_step_entries_other:
  "entries_of k (foldl (report_step m) r (filter (\<lambda>link. \<not> link_of_question k link) links)) =
   entries_of k r"
  by (induction links arbitrary: r) (simp_all add: report_step_entries_other)

lemma server_step_own_link:
  assumes "get_or_null m k = JNull" and "link_of_question k link"
  shows "server_step m counters link = counters"
  using assms
  by (auto simp add: link_of_question_def server_step_def Let_def split: option.splits)

lemma map_of_scores:
  "map_of (map (\<lambda>entry. (fst entry, h (snd entry))) stats) x = map_option h (map_of stats x)"
  by (induction stats) auto

lemma map_of_calculate_scores:
  "map_of (subjectStats (calculate_scores r)) x =
     map_option (\<lambda>st. st\<lparr>score := correct st * 4 - incorrect st * 1\<rparr>) (map_of (subjectStats r) x)"
  unfolding calculate_scores_def
  using map_of_scores [of "\<lambda>st. st\<lparr>score := correct st * 4 - incorrect st * 1\<rparr>" "subjectStats r" x]
  by simp

lemma calculate_scores_same_marks:
  assumes "same_marks k r r'"
  shows "totalScore (calculate_scores r) = totalScore (calculate_scores r')"
    and "subject_stat score (calculate_scores r) sub = subject_stat score (calculate_scores r') sub"
    and "subject_stat correct (calculate_scores r) sub = subject_stat correct (calculate_scores r') sub"
    and "subject_stat incorrect (calculate_scores r) sub = subject_stat incorrect (calculate_scores r') sub"
    and "totalCorrect (calculate_scores r) = totalCorrect (calculate_scores r')"
    and "totalIncorrect (calculate_scores r) = totalIncorrect (calculate_scores r')"
    and "totalUnattempted (calculate_scores r) - entries_of k (calculate_scores r) =
         totalUnattempted (calculate_scores r') - entries_of k (calculate_scores r')"
proof -
  from assms have c: "subject_stat correct r sub = subject_stat correct r' sub"
    and i: "subject_stat incorrect r sub = subject_stat incorrect r' sub"
    by (simp_all add: same_marks_def)
  have s: "subject_stat score (calculate_scores x) sub =
           subject_stat correct x sub * 4 - subject_stat incorrect x sub" for x
    by (simp add: subject_stat_def map_of_calculate_scores split: option.splits)
  show "subject_stat score (calculate_scores r) sub = subject_stat score (calculate_scores r') sub"
    by (simp add: s c i)
  have k: "subject_stat correct (calculate_scores x) sub = subject_stat correct x sub \<and>
           subject_stat incorrect (calculate_scores x) sub = subject_stat incorrect x sub" for x
    by (simp add: subject_stat_def map_of_calculate_scores split: option.splits)
  show "subject_stat correct (calculate_scores r) sub = subject_stat correct (calculate_scores r') sub"
    and "subject_stat incorrect (calculate_scores r) sub = subject_stat incorrect (calculate_scores r') sub"
    by (simp_all add: k c i)
  show "totalScore (calculate_scores r) = totalScore (calculate_scores r')"
    and "totalCorrect (calculate_scores r) = totalCorrect (calculate_scores r')"
    and "totalIncorrect (calculate_scores r) = totalIncorrect (calculate_scores r')"
    and "totalUnattempted (calculate_scores r) - entries_of k (calculate_scores r) =
         totalUnattempted (calculate_scores r') - entries_of k (calculate_scores r')"
    using assms by (simp_all add: same_marks_def calculate_scores_def entries_of_def)
qed


text \<open>
  Claim C10. When the answer stored for a question is falsy (the empty string, the
  number 0 and \<open>false\<close> are), it is read as \<open>null\<close> on both paths and the question is
  judged neither correct nor incorrect. On the server the two counters, and so the
  score, are what they are for the test without that question's links. In the report
  the total score, the totals of correct and incorrect answers and every subject's
  correct count, incorrect count and score are what they are without those links; each
  entry of the question is listed with the answer \<open>null\<close> and the status \<open>UNATTEMPTED\<close>
  and adds one to the unattempted total, nothing else. Both paths also give what they
  give when \<open>null\<close> is stored for the question.
\<close>

theorem falsy_answer_unattempted:
  assumes "build_answerMap userAnswers k = Some v" and "\<not> truthy v"
  shows "generateReport name userAnswers questionLinks =
           generateReport name (userAnswers @ [(k, JNull)]) questionLinks \<and>
         calculate_score userAnswers questionLinks =
           calculate_score (userAnswers @ [(k, JNull)]) questionLinks \<and>
         (\<forall>qa \<in> set (report_questions (generateReport name userAnswers questionLinks)).
            qa_question_id qa = k \<longrightarrow> qa_selected_answer qa = JNull \<and> qa_status qa = UNATTEMPTED) \<and>
         \<not> truthy (JStr []) \<and> \<not> truthy (JNum 0 0) \<and> \<not> truthy (JBool False) \<and>
         foldl (server_step (build_answerMap userAnswers)) (0, 0) questionLinks =
           foldl (server_step (build_answerMap userAnswers)) (0, 0)
             (filter (\<lambda>link. \<not> link_of_question k link) questionLinks) \<and>
         calculate_score userAnswers questionLinks =
           calculate_score userAnswers (filter (\<lambda>link. \<not> link_of_question k link) questionLinks) \<and>
         totalScore (generateReport name userAnswers questionLinks) =
           totalScore (generateReport name userAnswers (filter (\<lambda>link. \<not> link_of_question k link) questionLinks)) \<and>
         totalCorrect (generateReport name userAnswers questionLinks) =
           totalCorrect (generateReport name userAnswers (filter (\<lambda>link. \<not> link_of_question k link) questionLinks)) \<and>
         totalIncorrect (generateReport name userAnswers questionLinks) =
           totalIncorrect (generateReport name userAnswers (filter (\<lambda>link. \<not> link_of_question k link) questionLinks)) \<and>
         totalUnattempted (generateReport name userAnswers questionLinks) =
           totalUnattempted (generateReport name userAnswers (filter (\<lambda>link. \<not> link_of_question k link) questionLinks)) +
           entries_of k (generateReport name userAnswers questionLinks) \<and>
         (\<forall>sub.
            subject_stat correct (generateReport name userAnswers questionLinks) sub =
              subject_stat correct (generateReport name userAnswers (filter (\<lambda>link. \<not> link_of_question k link) questionLinks)) sub \<and>
            subject_stat incorrect (generateReport name userAnswers questionLinks) sub =
              subject_stat incorrect (generateReport name userAnswers (filter (\<lambda>link. \<not> link_of_question k link) questionLinks)) sub \<and>
            subject_stat score (generateReport name userAnswers questionLinks) sub =
              subject_stat score (generateReport name userAnswers (filter (\<lambda>link. \<not> link_of_question k link) questionLinks)) sub)"
proof -
  let ?m = "build_answerMap userAnswers"
  let ?others = "filter (\<lambda>link. \<not> link_of_question k link) questionLinks"
  let ?r = "foldl (report_step ?m) (newReportData name) questionLinks"
  let ?r' = "foldl (report_step ?m) (newReportData name) ?others"
  have null: "get_or_null ?m k = JNull"
    using assms by (simp add: get_or_null_def)
  have old: "generateReport name userAnswers questionLinks =
           generateReport name (userAnswers @ [(k, JNull)]) questionLinks \<and>
         calculate_score userAnswers questionLinks =
           calculate_score (userAnswers @ [(k, JNull)]) questionLinks \<and>
         (\<forall>qa \<in> set (report_questions (generateReport name userAnswers questionLinks)).
            qa_question_id qa = k \<longrightarrow> qa_selected_answer qa = JNull \<and> qa_status qa = UNATTEMPTED) \<and>
         \<not> truthy (JStr []) \<and> \<not> truthy (JNum 0 0) \<and> \<not> truthy (JBool False)"
    using falsy_answer_as_null [OF assms] .
  have server: "foldl (server_step ?m) c ?others = foldl (server_step ?m) c questionLinks" for c
    by (rule foldl_filter_skip) (simp add: server_step_own_link [OF null])
  have "same_marks k (newReportData name) (newReportData name)"
    by (simp add: same_marks_def)
  then have sm: "same_marks k ?r ?r'"
    by (rule foldl_report_step_same_marks [OF null])
  have g: "generateReport name userAnswers questionLinks = calculate_scores ?r"
    and g': "generateReport name userAnswers ?others = calculate_scores ?r'"
    by (simp_all add: generateReport_def)
  have "entries_of k ?r' = entries_of k (newReportData name)"
    by (rule foldl_report_step_entries_other)
  then have none: "entries_of k (calculate_scores ?r') = 0"
    by (simp add: entries_of_def calculate_scores_def newReportData_def)
  have un: "totalUnattempted (calculate_scores ?r) =
            totalUnattempted (calculate_scores ?r') + entries_of k (calculate_scores ?r)"
    using calculate_scores_same_marks(7) [OF sm] none by simp
  have new: "foldl (server_step ?m) (0, 0) questionLinks = foldl (server_step ?m) (0, 0) ?others \<and>
         calculate_score userAnswers questionLinks = calculate_score userAnswers ?others \<and>
         totalScore (generateReport name userAnswers questionLinks) =
           totalScore (generateReport name userAnswers ?others) \<and>
         totalCorrect (generateReport name userAnswers questionLinks) =
           totalCorrect (generateReport name userAnswers ?others) \<and>
         totalIncorrect (generateReport name userAnswers questionLinks) =
           totalIncorrect (generateReport name userAnswers ?others) \<and>
         totalUnattempted (generateReport name userAnswers questionLinks) =
           totalUnattempted (generateReport name userAnswers ?others) +
           entries_of k (generateReport name userAnswers questionLinks) \<and>
         (\<forall>sub.
            subject_stat correct (generateReport name userAnswers questionLinks) sub =
              subject_stat correct (generateReport name userAnswers ?others) sub \<and>
            subject_stat incorrect (generateReport name userAnswers questionLinks) sub =
              subject_stat incorrect (generateReport name userAnswers ?others) sub \<and>
            subject_stat score (generateReport name userAnswers questionLinks) sub =
              subject_stat score (generateReport name userAnswers ?others) sub)"
    unfolding g g'
    by (simp add: server calculate_score_def calculate_scores_same_marks(1-6) [OF sm] un)
  show ?thesis
    using old new by (elim conjE, intro conjI) assumption+
qed


text \<open>
  A numerical question whose right answer is 0, answered with the number 0: the judge
  itself would accept the answer, yet the question is unattempted and scores nothing on
  either path, alone or as the fourth question of the sample attempt. Answered with the
  string \<open>0\<close>, which is truthy, it is correct. A single-choice question answered
  with \<open>false\<close> or with the empty string scores nothing either, and the attempt
  scores what it scores on the test without that question.
\<close>

lemma zero_report:
  "map qa_status (report_questions (generateReport ''Mock'' [(''z'', JNum 0 0)]
       [\<lparr>question_number = 1, Questions = Rows [Some zero_question]\<rparr>])) = [UNATTEMPTED] \<and>
   totalScore (generateReport ''Mock'' [(''z'', JNum 0 0)]
       [\<lparr>question_number = 1, Questions = Rows [Some zero_question]\<rparr>]) = 0 \<and>
   calculate_score [(''z'', JNum 0 0)] [\<lparr>question_number = 1, Questions = Rows [Some zero_question]\<rparr>] = 0 \<and>
   isAnswerCorrect ''NUMERICAL'' (JNum 0 0) (JArr [JNum 0 0]) \<and>
   map qa_status (report_questions (generateReport ''Mock'' [(''z'', JStr ''0'')]
       [\<lparr>question_number = 1, Questions = Rows [Some zero_question]\<rparr>])) = [CORRECT] \<and>
   calculate_score [(''z'', JStr ''0'')] [\<lparr>question_number = 1, Questions = Rows [Some zero_question]\<rparr>] = 4"
  by code_simp

lemma zero_attempt_report:
  "filter (\<lambda>link. \<not> link_of_question ''z'' link) zero_attempt_links = scenario_links \<and>
   map qa_status (report_questions (generateReport ''Mock'' zero_attempt_answers zero_attempt_links)) =
     [CORRECT, INCORRECT, UNATTEMPTED, UNATTEMPTED] \<and>
   totalScore (generateReport ''Mock'' zero_attempt_answers zero_attempt_links) = 3 \<and>
   totalCorrect (generateReport ''Mock'' zero_attempt_answers zero_attempt_links) = 1 \<and>
   totalIncorrect (generateReport ''Mock'' zero_attempt_answers zero_attempt_links) = 1 \<and>
   totalUnattempted (generateReport ''Mock'' zero_attempt_answers zero_attempt_links) = 2 \<and>
   entries_of ''z'' (generateReport ''Mock'' zero_attempt_answers zero_attempt_links) = 1 \<and>
   subject_stat unattempted (generateReport ''Mock'' zero_attempt_answers zero_attempt_links) ''MATHS'' = 1 \<and>
   subject_stat score (generateReport ''Mock'' zero_attempt_answers zero_attempt_links) ''MATHS'' = 0 \<and>
   foldl (server_step (build_answerMap zero_attempt_answers)) (0, 0) zero_attempt_links = (1, 1) \<and>
   calculate_score zero_attempt_answers zero_attempt_links = 3 \<and>
   build_answerMap zero_attempt_answers ''z'' = Some (JNum 0 0)"
  by code_simp

lemma false_choice_report:
  "build_answerMap [(''q1'', JBool False)] ''q1'' = Some (JBool False) \<and>
   build_answerMap [(''q1'', JStr [])] ''q1'' = Some (JStr []) \<and>
   filter (\<lambda>link. \<not> link_of_question ''q1'' link) scenario_links = tl scenario_links \<and>
   map qa_status (report_questions (generateReport ''Mock'' [(''q1'', JBool False)] scenario_links)) =
     [UNATTEMPTED, UNATTEMPTED, UNATTEMPTED] \<and>
   totalScore (generateReport ''Mock'' [(''q1'', JBool False)] scenario_links) = 0 \<and>
   totalIncorrect (generateReport ''Mock'' [(''q1'', JBool False)] scenario_links) = 0 \<and>
   foldl (server_step (build_answerMap [(''q1'', JBool False)])) (0, 0) scenario_links = (0, 0) \<and>
   calculate_score [(''q1'', JBool False)] scenario_links = 0 \<and>
   calculate_score [(''q1'', JStr [])] scenario_links = 0 \<and>
   totalScore (generateReport ''Mock'' [(''q1'', JStr [])] scenario_links) = 0"
  by code_simp

theorem falsy_answer_unattempted_witness:
  "build_answerMap zero_attempt_answers ''z'' = Some (JNum 0 0) \<and> \<not> truthy (JNum 0 0) \<and>
   isAnswerCorrect ''NUMERICAL'' (JNum 0 0) (JArr [JNum 0 0]) \<and>
   map qa_status (report_questions (generateReport ''Mock'' zero_attempt_answers zero_attempt_links)) =
     [CORRECT, INCORRECT, UNATTEMPTED, UNATTEMPTED] \<and>
   totalScore (generateReport ''Mock'' zero_attempt_answers zero_attempt_links) = 3 \<and>
   totalScore (generateReport ''Mock'' zero_attempt_answers scenario_links) = 3 \<and>
   totalUnattempted (generateReport ''Mock'' zero_attempt_answers zero_attempt_links) = 2 \<and>
   totalUnattempted (generateReport ''Mock'' zero_attempt_answers scenario_links) = 1 \<and>
   foldl (server_step (build_answerMap zero_attempt_answers)) (0, 0) zero_attempt_links = (1, 1) \<and>
   foldl (server_step (build_answerMap zero_attempt_answers)) (0, 0) scenario_links = (1, 1) \<and>
   calculate_score zero_attempt_answers zero_attempt_links = 3 \<and>
   map qa_status (report_questions (generateReport ''Mock'' [(''z'', JNum 0 0)]
       [\<lparr>question_number = 1, Questions = Rows [Some zero_question]\<rparr>])) = [UNATTEMPTED] \<and>
   totalScore (generateReport ''Mock'' [(''z'', JNum 0 0)]
       [\<lparr>question_number = 1, Questions = Rows [Some zero_question]\<rparr>]) = 0 \<and>
   calculate_score [(''z'', JNum 0 0)] [\<lparr>question_number = 1, Questions = Rows [Some zero_question]\<rparr>] = 0 \<and>
   calculate_score [(''z'', JNum 0 0), (''z'', JNull)]
       [\<lparr>question_number = 1, Questions = Rows [Some zero_question]\<rparr>] = 0 \<and>
   \<not> truthy (JBool False) \<and> \<not> truthy (JStr []) \<and>
   map qa_status (report_questions (generateReport ''Mock'' [(''q1'', JBool False)] scenario_links)) =
     [UNATTEMPTED, UNATTEMPTED, UNATTEMPTED] \<and>
   calculate_score [(''q1'', JBool False)] scenario_links = 0 \<and>
   calculate_score [(''q1'', JBool False)] (tl scenario_links) = 0 \<and>
   totalScore (generateReport ''Mock'' [(''q1'', JBool False)] (tl scenario_links)) = 0 \<and>
   totalIncorrect (generateReport ''Mock'' [(''q1'', JBool False)] (tl scenario_links)) = 0 \<and>
   calculate_score [(''q1'', JStr [])] (tl scenario_links) = 0 \<and>
   totalScore (generateReport ''Mock'' [(''q1'', JStr [])] (tl scenario_links)) = 0"
  using falsy_answer_unattempted [of zero_attempt_answers "''z''" "JNum 0 0" "''Mock''" zero_attempt_links]
    falsy_answer_unattempted [of "[(''z'', JNum 0 0)]" "''z''" "JNum 0 0" "''Mock''"
      "[\<lparr>question_number = 1, Questions = Rows [Some zero_question]\<rparr>]"]
    falsy_answer_unattempted [of "[(''q1'', JBool False)]" "''q1''" "JBool False" "''Mock''" scenario_links]
    falsy_answer_unattempted [of "[(''q1'', JStr [])]" "''q1''" "JStr []" "''Mock''" scenario_links]
    zero_attempt_report zero_report false_choice_report
  by (simp add: build_answerMap_def fl_dec_def fl_frac_def)

subsection \<open>The two paths against each other\<close>

text \<open>
  On links whose join is an array or nothing, the report's two counters move as the
  server's do, and the two scores are the same.
\<close>

lemma array_join_steps_agree:
  assumes "\<forall>q. Questions link \<noteq> OneRow q"
  shows "(totalCorrect (report_step m r link), totalIncorrect (report_step m r link)) =
         server_step m (totalCorrect r, totalIncorrect r) link"
  using assms get_or_null_not_empty [of m]
  by (auto simp add: report_step_def server_step_def resolve_server_def Let_def classify_def
      count_status_totals isAnswerCorrect_server_eq
      split: joined.splits list.splits option.splits)

lemma array_join_loops_agree:
  assumes "\<forall>link \<in> set links. \<forall>q. Questions link \<noteq> OneRow q"
  shows "(totalCorrect (foldl (report_step m) r links), totalIncorrect (foldl (report_step m) r links)) =
         foldl (server_step m) (totalCorrect r, totalIncorrect r) links"
  using assms
proof (induction links arbitrary: r)
  case Nil
  then show ?case by simp
next
  case (Cons link links)
  then have "\<forall>q. Questions link \<noteq> OneRow q" by simp
  from array_join_steps_agree [OF this, of m r] Cons show ?case by simp
qed

lemma array_join_scores_agree:
  assumes "\<forall>link \<in> set questionLinks. \<forall>q. Questions link \<noteq> OneRow q"
  shows "totalScore (generateReport name userAnswers questionLinks) =
         calculate_score userAnswers questionLinks"
  using array_join_loops_agree [OF assms, of "build_answerMap userAnswers" "newReportData name"]
  by (simp add: generateReport_def calculate_score_def calculate_scores_def finalScore_def
      newReportData_def prod_eq_iff)

text \<open>A link joined to one row object is passed over by the report and scored by the server.\<close>

lemma object_join_report_step: "Questions link = OneRow q \<Longrightarrow> report_step answerMap r link = r"
  by (simp add: report_step_def)

lemma object_join_server_step:
  "Questions link = OneRow q \<Longrightarrow> get_or_null answerMap (question_id q) \<noteq> JNull \<Longrightarrow>
   server_step answerMap counters link \<noteq> counters"
  by (simp add: server_step_def resolve_server_def Let_def prod_eq_iff)

text \<open>
  Claim C1 does not hold of the code. For a link whose \<open>Questions\<close> is one row object,
  answered rightly, the report lists no question and has the total score 0, while the
  server's score is 4. Joined as a one-element array the same row scores 4 in the
  report as well.
\<close>

theorem object_join_divergence:
  "totalScore (generateReport ''Mock'' [(''q1'', JStr ''A'')]
      [\<lparr>question_number = 1, Questions = OneRow (example_question ''q1'')\<rparr>]) = 0 \<and>
   report_questions (generateReport ''Mock'' [(''q1'', JStr ''A'')]
      [\<lparr>question_number = 1, Questions = OneRow (example_question ''q1'')\<rparr>]) = [] \<and>
   calculate_score [(''q1'', JStr ''A'')]
      [\<lparr>question_number = 1, Questions = OneRow (example_question ''q1'')\<rparr>] = 4 \<and>
   totalScore (generateReport ''Mock'' [(''q1'', JStr ''A'')]
      [\<lparr>question_number = 1, Questions = Rows [Some (example_question ''q1'')]\<rparr>]) = 4"
  by code_simp

section \<open>Properties of the test page\<close>

lemma js_index_Some:
  "0 \<le> i \<Longrightarrow> i < int (length xs) \<Longrightarrow> js_index xs i = Some (xs ! nat i)"
  by (simp add: js_index_def)

lemma saveAnswerToDB_frame:
  "testState (saveAnswerToDB e qId s) = testState s \<and>
   questions (saveAnswerToDB e qId s) = questions s \<and>
   currentQuestionIndex (saveAnswerToDB e qId s) = currentQuestionIndex s \<and>
   isSubmitting (saveAnswerToDB e qId s) = isSubmitting s \<and>
   attempt_status (saveAnswerToDB e qId s) = attempt_status s \<and>
   end_time (saveAnswerToDB e qId s) = end_time s \<and>
   alerts (saveAnswerToDB e qId s) = alerts s \<and>
   route (saveAnswerToDB e qId s) = route s \<and>
   attemptId (saveAnswerToDB e qId s) = attemptId s"
  by (simp add: saveAnswerToDB_def Let_def split: option.splits)

text \<open>The index invariant holds when the page is loaded and navigation keeps it.\<close>

lemma index_ok_initial: "currentQuestionIndex s = 0 \<Longrightarrow> index_ok s"
  by (simp add: index_ok_def)

lemma navigateToQuestion_index_ok:
  assumes "index_ok s" and "navigateToQuestion upsert_error newIndex s = Inr s'"
  shows "index_ok s'"
  using assms
  by (auto simp add: navigateToQuestion_def index_ok_def Let_def saveAnswerToDB_frame
      split: if_splits option.splits)

text \<open>
  Claim C7. A navigation to an index inside the bounds and other than the current one
  succeeds and moves the current index there. The question it lands on goes from
  \<open>not_visited\<close> to \<open>unanswered\<close>, and keeps its status when it had any other; either
  way it is not \<open>not_visited\<close> afterwards, so it cannot be promoted a second time. Its
  answer and the state of every other question are untouched.
\<close>

theorem navigateToQuestion_visits_target:
  assumes "0 \<le> newIndex" and "newIndex < int (length (questions s))"
    and "newIndex \<noteq> currentQuestionIndex s" and "index_ok s"
  shows "\<exists>s'. navigateToQuestion upsert_error newIndex s = Inr s' \<and>
           currentQuestionIndex s' = newIndex \<and>
           status (getQuestionState s' (question_id (questions s ! nat newIndex))) =
             (if status (getQuestionState s (question_id (questions s ! nat newIndex))) = not_visited
              then unanswered
              else status (getQuestionState s (question_id (questions s ! nat newIndex)))) \<and>
           status (getQuestionState s' (question_id (questions s ! nat newIndex))) \<noteq> not_visited \<and>
           selected_answer (getQuestionState s' (question_id (questions s ! nat newIndex))) =
             selected_answer (getQuestionState s (question_id (questions s ! nat newIndex))) \<and>
           (\<forall>k. k \<noteq> question_id (questions s ! nat newIndex) \<longrightarrow> testState s' k = testState s k)"
proof -
  from assms have cur: "0 \<le> currentQuestionIndex s" "currentQuestionIndex s < int (length (questions s))"
    by (auto simp add: index_ok_def)
  have old: "js_index (questions s) (currentQuestionIndex s) = Some (questions s ! nat (currentQuestionIndex s))"
    using cur by (rule js_index_Some)
  have new: "js_index (questions s) newIndex = Some (questions s ! nat newIndex)"
    using assms(1,2) by (rule js_index_Some)
  show ?thesis
    using assms(1,2,3)
    by (simp add: navigateToQuestion_def old new Let_def saveAnswerToDB_frame getQuestionState_def
        split: option.splits)
qed

text \<open>
  In the sample session, going to the second question promotes it, and going on to the
  third leaves both the second (\<open>unanswered\<close>) and the third (\<open>answered\<close>) as they are.
\<close>

theorem navigateToQuestion_witness:
  "(0::int) \<le> 1 \<and> 1 < int (length (questions example_session)) \<and>
   1 \<noteq> currentQuestionIndex example_session \<and> index_ok example_session \<and>
   status (getQuestionState example_session ''q2'') = not_visited \<and>
   status (getQuestionState example_session ''q3'') = answered \<and>
   (\<exists>s'. navigateToQuestion None 1 example_session = Inr s' \<and>
      status (getQuestionState s' ''q2'') = unanswered \<and>
      (\<exists>s''. navigateToQuestion None 2 s' = Inr s'' \<and>
         status (getQuestionState s'' ''q2'') = unanswered \<and>
         status (getQuestionState s'' ''q3'') = answered))"
  using navigateToQuestion_visits_target [of 1 example_session None]
  by (simp add: example_session_def example_question_def index_ok_def navigateToQuestion_def
      js_index_def saveAnswerToDB_def getQuestionState_def Let_def)

text \<open>
  Claim C8. \<open>handleAnswerChange\<close> on the current question stores the value as
  \<open>selected_answer\<close> and sets the status to \<open>answered\<close> when the value is neither \<open>null\<close>
  nor the empty string, to \<open>unanswered\<close> otherwise. The new status does not depend on
  the old one and is never \<open>marked_for_review\<close>: a mark does not survive an edit. The
  other questions and the current index stay as they are.
\<close>

theorem handleAnswerChange_sets_answer:
  assumes "js_index (questions s) (currentQuestionIndex s) = Some q"
  shows "\<exists>s'. handleAnswerChange v s = Inr s' \<and>
           selected_answer (getQuestionState s' (question_id q)) = v \<and>
           status (getQuestionState s' (question_id q)) =
             (if v \<noteq> JNull \<and> v \<noteq> JStr [] then answered else unanswered) \<and>
           status (getQuestionState s' (question_id q)) \<noteq> marked_for_review \<and>
           time_taken_sec (getQuestionState s' (question_id q)) =
             time_taken_sec (getQuestionState s (question_id q)) \<and>
           (\<forall>k. k \<noteq> question_id q \<longrightarrow> testState s' k = testState s k) \<and>
           currentQuestionIndex s' = currentQuestionIndex s"
  using assms
  by (simp add: handleAnswerChange_def Let_def getQuestionState_def)

text \<open>The first question of the sample session is marked for review; each edit replaces the mark.\<close>

theorem handleAnswerChange_witness:
  "js_index (questions example_session) (currentQuestionIndex example_session) = Some (example_question ''q1'') \<and>
   status (getQuestionState example_session ''q1'') = marked_for_review \<and>
   (\<exists>s'. handleAnswerChange (JStr ''B'') example_session = Inr s' \<and>
      selected_answer (getQuestionState s' ''q1'') = JStr ''B'' \<and>
      status (getQuestionState s' ''q1'') = answered) \<and>
   (\<exists>s'. handleAnswerChange (JStr []) example_session = Inr s' \<and>
      selected_answer (getQuestionState s' ''q1'') = JStr [] \<and>
      status (getQuestionState s' ''q1'') = unanswered) \<and>
   (\<exists>s'. handleAnswerChange JNull example_session = Inr s' \<and>
      selected_answer (getQuestionState s' ''q1'') = JNull \<and>
      status (getQuestionState s' ''q1'') = unanswered)"
  using handleAnswerChange_sets_answer [of example_session "example_question ''q1''" "JStr ''B''"]
  by (simp add: example_session_def example_question_def handleAnswerChange_def js_index_def
      getQuestionState_def Let_def)




section \<open>Properties of the timer\<close>

text \<open>
  An invocation that finds the flag set, or whose confirmation is declined, changes
  nothing and asks the store for nothing.
\<close>

lemma handleSubmitTest_in_flight:
  "isSubmitting s \<Longrightarrow> handleSubmitTest confirmSubmit upsert_error update_error now s = Inr s"
  by (simp add: handleSubmitTest_def)

lemma handleSubmitTest_declined:
  "handleSubmitTest False upsert_error update_error now s = Inr s"
  by (simp add: handleSubmitTest_def)

text \<open>While the time is up the effect leaves no interval running, whatever else holds.\<close>

lemma timer_effect_stopped:
  "timeLeft s \<le> 0 \<Longrightarrow> fst (timer_effect confirmSubmit upsert_error update_error now s) = Stopped"
  by (simp add: timer_effect_def)

text \<open>
  Claim C5, as stated, fails in two ways. The last tick brings the sample session to
  zero and the effect invokes \<open>handleSubmitTest\<close>. If the user declines the
  confirmation, nothing is submitted: the attempt is still \<open>STARTED\<close>, the flag is clear
  and no interval runs, so the page stays as it is; a click that follows is not ignored
  but completes the attempt. If the user accepts and the store rejects the update, the
  flag is cleared again, and the effect, run on that state, invokes the submission a
  second time, which here succeeds.
\<close>

theorem timer_expiry_counterexample:
  "tick last_second_session = expired_session \<and> timeLeft expired_session = 0 \<and>
   loading expired_session = False \<and> isSubmitting expired_session = False \<and>
   attempt_status expired_session = STARTED \<and>
   timer_effect False None None ''2024-01-01T00:00:00.000Z'' expired_session = (Stopped, Inr expired_session) \<and>
   (\<exists>s'. handleSubmitTest True None None ''2024-01-01T00:00:00.000Z'' expired_session = Inr s' \<and>
      s' \<noteq> expired_session \<and> attempt_status s' = COMPLETED) \<and>
   (\<exists>s1 s2. timer_effect True None (Some ''update rejected'') ''2024-01-01T00:00:00.000Z'' expired_session =
        (Stopped, Inr s1) \<and>
      isSubmitting s1 = False \<and> attempt_status s1 = STARTED \<and>
      User_Answer_Responses s1 ''q1'' \<noteq> None \<and>
      timer_effect True None None ''2024-01-01T00:00:01.000Z'' s1 = (Stopped, Inr s2) \<and>
      attempt_status s2 = COMPLETED)"
  by (simp add: last_second_session_def expired_session_def example_session_def example_question_def
      tick_def timer_effect_def handleSubmitTest_def submit_confirmed_def js_index_def
      saveAnswerToDB_def Let_def)

text \<open>
  Claim C5, amended. When the page has rendered with no time left, not loading and not
  submitting, the timer effect makes one call of \<open>handleSubmitTest\<close> and leaves no
  interval running; the call returns and does not change \<open>timeLeft\<close> or \<open>loading\<close>. A
  declined confirmation leaves the state as it was. An accepted one goes on from the
  state with \<open>isSubmitting\<close> set; in that state every further invocation, by a click or
  by the effect, is ignored. At the end the flag is still set if the update of the
  attempt was accepted and is clear again if it was rejected.
\<close>

theorem timer_expiry_submits:
  assumes "\<not> loading s" and "\<not> isSubmitting s" and "timeLeft s \<le> 0"
    and "js_index (questions s) (currentQuestionIndex s) = Some q"
  shows "timer_effect confirmSubmit upsert_error update_error now s =
           (Stopped, handleSubmitTest confirmSubmit upsert_error update_error now s) \<and>
         (\<exists>s'. handleSubmitTest confirmSubmit upsert_error update_error now s = Inr s' \<and>
            timeLeft s' = timeLeft s \<and> loading s' = loading s \<and>
            (if confirmSubmit then isSubmitting s' = (update_error = None) else s' = s)) \<and>
         handleSubmitTest True upsert_error update_error now s =
           submit_confirmed upsert_error update_error now (s\<lparr>isSubmitting := True\<rparr>) \<and>
         handleSubmitTest confirmSubmit' upsert_error' update_error' now' (s\<lparr>isSubmitting := True\<rparr>) =
           Inr (s\<lparr>isSubmitting := True\<rparr>) \<and>
         timer_effect confirmSubmit' upsert_error' update_error' now' (s\<lparr>isSubmitting := True\<rparr>) =
           (Stopped, Inr (s\<lparr>isSubmitting := True\<rparr>))"
  using assms
  by (auto simp add: timer_effect_def handleSubmitTest_def submit_confirmed_def Let_def
      saveAnswerToDB_def split: option.splits)

text \<open>
  In the expired sample session an accepted confirmation with a willing store completes
  the attempt and leaves the flag set; a click after that does nothing.
\<close>

theorem timer_expiry_submits_witness:
  "\<not> loading expired_session \<and> \<not> isSubmitting expired_session \<and> timeLeft expired_session \<le> 0 \<and>
   js_index (questions expired_session) (currentQuestionIndex expired_session) = Some (example_question ''q1'') \<and>
   (\<exists>s'. timer_effect True None None ''2024-01-01T00:00:00.000Z'' expired_session = (Stopped, Inr s') \<and>
      isSubmitting s' = True \<and> attempt_status s' = COMPLETED \<and>
      handleSubmitTest True None None ''2024-01-01T00:00:01.000Z'' s' = Inr s')"
  using timer_expiry_submits [of expired_session "example_question ''q1''" True None None
      "''2024-01-01T00:00:00.000Z''"]
  by (simp add: expired_session_def example_session_def example_question_def
      timer_effect_def handleSubmitTest_def submit_confirmed_def js_index_def saveAnswerToDB_def Let_def)

end
